theory Spec2Isabelle
  imports Complex_Main
begin

section \<open>Python values: exceptions, floats, tensors\<close>

text \<open>
  Every \<^verbatim>\<open>raise\<close>, failed \<^verbatim>\<open>assert\<close> and library error of \<^verbatim>\<open>torchmps.py\<close> is a value:
  a function that can fail returns \<open>error + 'a\<close>, with \<open>Inl\<close> the exception class.
\<close>

datatype error =
    AssertionError | ValueError | RuntimeError | IndexError
  | TypeError | AttributeError | ZeroDivisionError

definition bindE :: "error + 'a \<Rightarrow> ('a \<Rightarrow> error + 'b) \<Rightarrow> error + 'b" where
  "bindE m f = (case m of Inl e \<Rightarrow> Inl e | Inr x \<Rightarrow> f x)"

lemma bindE_Inl [simp]: "bindE (Inl e) f = Inl e"
  by (simp add: bindE_def)

lemma bindE_Inr [simp]: "bindE (Inr x) f = f x"
  by (simp add: bindE_def)

lemma bindE_eq_Inr: "bindE m f = Inr y \<longleftrightarrow> (\<exists>x. m = Inr x \<and> f x = Inr y)"
  by (cases m) simp_all

text \<open>
  A tensor entry keeps the special values of IEEE arithmetic (\<open>PInf\<close>, \<open>NInf\<close>, \<open>NaN\<close>);
  a finite entry is an exact real. Rounding and the sign of zero are outside the model, so
  nothing below speaks about floating tolerance. Sums and products of finite entries stay
  finite here; the one operation whose overflow is modelled is the exponential of the
  rescale step (\<open>fl_exp\<close>).
\<close>

datatype fl = is_Fin: Fin real | PInf | NInf | NaN

datatype tensor = Tensor (shape: "nat list") (entry: "nat list \<Rightarrow> fl")

text \<open>\<^verbatim>\<open>tensor.size(k)\<close>: the size of axis \<open>k\<close>, IndexError when the tensor has no such axis.\<close>

definition tsize :: "tensor \<Rightarrow> nat \<Rightarrow> error + nat" where
  "tsize t k = (if k < length (shape t) then Inr (shape t ! k) else Inl IndexError)"

section \<open>The five core classes\<close>

text \<open>
  One constructor per class of \<^verbatim>\<open>torchmps.py\<close>, each owning its tensor; \<open>MergedOutput\<close> also
  keeps its \<^verbatim>\<open>left_output\<close> flag. \<open>PyNone\<close> is Python's \<^verbatim>\<open>None\<close>, which
  \<^verbatim>\<open>InputRegion.merge\<close> puts into a list of cores for an empty region.
\<close>

datatype mps_module =
    is_InputRegion: InputRegion tensor
  | is_MergedInput: MergedInput tensor
  | is_InputSite: InputSite tensor
  | is_OutputSite: OutputSite tensor
  | is_MergedOutput: MergedOutput tensor bool
  | is_None: PyNone

text \<open>The attribute \<^verbatim>\<open>core.tensor\<close>; \<^verbatim>\<open>None\<close> has none.\<close>

fun tensor_of :: "mps_module \<Rightarrow> error + tensor" where
  "tensor_of (InputRegion t) = Inr t"
| "tensor_of (MergedInput t) = Inr t"
| "tensor_of (InputSite t) = Inr t"
| "tensor_of (OutputSite t) = Inr t"
| "tensor_of (MergedOutput t lo) = Inr t"
| "tensor_of PyNone = Inl AttributeError"

text \<open>\<^verbatim>\<open>MergedInput.__init__\<close>: three assertions on the shape \<^verbatim>\<open>slrij\<close>.\<close>

definition MergedInput_init :: "tensor \<Rightarrow> error + mps_module" where
  "MergedInput_init t =
     (let sh = shape t in
      if length sh \<noteq> 5 then Inl AssertionError
      else if sh ! 1 \<noteq> sh ! 2 then Inl AssertionError
      else if sh ! 3 \<noteq> sh ! 4 then Inl AssertionError
      else Inr (MergedInput t))"

text \<open>\<^verbatim>\<open>MergedOutput.__init__\<close>: the tensor has four axes \<^verbatim>\<open>olri\<close>.\<close>

definition MergedOutput_init :: "tensor \<Rightarrow> bool \<Rightarrow> error + mps_module" where
  "MergedOutput_init t left_output =
     (if length (shape t) \<noteq> 4 then Inl AssertionError
      else Inr (MergedOutput t left_output))"

text \<open>
  \<^verbatim>\<open>__len__\<close> (input sites consumed) and \<^verbatim>\<open>core_len\<close> of each class. \<^verbatim>\<open>len(None)\<close> is a
  TypeError and \<^verbatim>\<open>None.core_len()\<close> an AttributeError.
\<close>

fun len :: "mps_module \<Rightarrow> error + nat" where
  "len (InputRegion t) = tsize t 0"
| "len (MergedInput t) = bindE (tsize t 0) (\<lambda>n. Inr (2 * n))"
| "len (InputSite t) = Inr 1"
| "len (OutputSite t) = Inr 0"
| "len (MergedOutput t lo) = Inr 1"
| "len PyNone = Inl TypeError"

fun core_len :: "mps_module \<Rightarrow> error + nat" where
  "core_len (InputRegion t) = len (InputRegion t)"
| "core_len (MergedInput t) = len (MergedInput t)"
| "core_len (InputSite t) = Inr 1"
| "core_len (OutputSite t) = Inr 1"
| "core_len (MergedOutput t lo) = Inr 2"
| "core_len PyNone = Inl AttributeError"

text \<open>\<^verbatim>\<open>sum([f(module) for module in module_list])\<close>: the first failing call raises.\<close>

fun sum_results :: "(error + nat) list \<Rightarrow> error + nat" where
  "sum_results [] = Inr 0"
| "sum_results (r # rs) = bindE r (\<lambda>n. bindE (sum_results rs) (\<lambda>m. Inr (n + m)))"

definition LinearRegion_core_len :: "mps_module list \<Rightarrow> error + nat" where
  "LinearRegion_core_len module_list = sum_results (map core_len module_list)"

definition LinearRegion_len :: "mps_module list \<Rightarrow> error + nat" where
  "LinearRegion_len module_list = sum_results (map len module_list)"

text \<open>The classes that hold a merged tensor, and those that carry the output index.\<close>

fun is_merged :: "mps_module \<Rightarrow> bool" where
  "is_merged (MergedInput t) = True"
| "is_merged (MergedOutput t lo) = True"
| "is_merged m = False"

fun has_output :: "mps_module \<Rightarrow> bool" where
  "has_output (OutputSite t) = True"
| "has_output (MergedOutput t lo) = True"
| "has_output m = False"

text \<open>\<^verbatim>\<open>torch.zeros(shape)\<close> and friends: a tensor with one value everywhere.\<close>

definition full :: "nat list \<Rightarrow> fl \<Rightarrow> tensor" where
  "full sh v = Tensor sh (\<lambda>idx. v)"

section \<open>The torch operations the code calls\<close>

text \<open>
  \<^verbatim>\<open>torch\<close> is a library outside the repository. Its operations are modelled by their
  documented behaviour on shapes and entries: an operation that torch rejects for the
  shapes it is given returns \<open>RuntimeError\<close>.
\<close>

fun fl_add :: "fl \<Rightarrow> fl \<Rightarrow> fl" where
  "fl_add (Fin a) (Fin b) = Fin (a + b)"
| "fl_add NaN y = NaN"
| "fl_add x NaN = NaN"
| "fl_add PInf NInf = NaN"
| "fl_add NInf PInf = NaN"
| "fl_add PInf y = PInf"
| "fl_add x PInf = PInf"
| "fl_add NInf y = NInf"
| "fl_add x NInf = NInf"

fun fl_neg :: "fl \<Rightarrow> fl" where
  "fl_neg (Fin a) = Fin (- a)"
| "fl_neg PInf = NInf"
| "fl_neg NInf = PInf"
| "fl_neg NaN = NaN"

definition fl_sub :: "fl \<Rightarrow> fl \<Rightarrow> fl" where
  "fl_sub x y = fl_add x (fl_neg y)"

fun is_negative :: "fl \<Rightarrow> bool" where
  "is_negative (Fin a) = (a < 0)"
| "is_negative NInf = True"
| "is_negative x = False"

fun fl_mul :: "fl \<Rightarrow> fl \<Rightarrow> fl" where
  "fl_mul (Fin a) (Fin b) = Fin (a * b)"
| "fl_mul x y =
     (if x = NaN \<or> y = NaN \<or> x = Fin 0 \<or> y = Fin 0 then NaN
      else if is_negative x = is_negative y then PInf else NInf)"

definition fl_sum :: "fl list \<Rightarrow> fl" where
  "fl_sum xs = foldl fl_add (Fin 0) xs"

definition fl_prod :: "fl list \<Rightarrow> fl" where
  "fl_prod xs = foldl fl_mul (Fin 1) xs"

subsection \<open>einsum\<close>

text \<open>
  \<^verbatim>\<open>torch.einsum(equation, operands)\<close> with an explicit output, as every call of the
  source has it: \<^verbatim>\<open>"lri,bi->blr"\<close>. Each subscript letter is bound to the size of the axes
  it labels; two axes with the same letter and different sizes are a RuntimeError, as is
  a number of subscripts different from the operand's number of axes. A letter absent
  from the output is summed over; a letter repeated within one operand reads the diagonal.
\<close>

fun split_commas :: "string \<Rightarrow> string list" where
  "split_commas [] = [[]]"
| "split_commas (c # cs) =
     (if c = CHR '','' then [] # split_commas cs
      else (case split_commas cs of [] \<Rightarrow> [[c]] | w # ws \<Rightarrow> (c # w) # ws))"

fun split_arrow :: "string \<Rightarrow> (string \<times> string) option" where
  "split_arrow [] = None"
| "split_arrow (c # cs) =
     (if c = CHR ''-'' \<and> take 1 cs = ''>'' then Some ([], drop 1 cs)
      else (case split_arrow cs of None \<Rightarrow> None | Some (a, b) \<Rightarrow> Some (c # a, b)))"

fun bind_sizes :: "string \<Rightarrow> nat list \<Rightarrow> (char \<times> nat) list \<Rightarrow> error + (char \<times> nat) list" where
  "bind_sizes [] [] env = Inr env"
| "bind_sizes (c # cs) (n # ns) env =
     (case map_of env c of
        None \<Rightarrow> bind_sizes cs ns (env @ [(c, n)])
      | Some m \<Rightarrow> if m = n then bind_sizes cs ns env else Inl RuntimeError)"
| "bind_sizes cs ns env = Inl RuntimeError"

fun bind_all :: "string list \<Rightarrow> tensor list \<Rightarrow> (char \<times> nat) list \<Rightarrow> error + (char \<times> nat) list" where
  "bind_all [] [] env = Inr env"
| "bind_all (ls # lss) (t # ts) env = bindE (bind_sizes ls (shape t) env) (bind_all lss ts)"
| "bind_all lss ts env = Inl RuntimeError"

primrec sum_over :: "(char \<times> nat) list \<Rightarrow> (char \<Rightarrow> nat) \<Rightarrow> ((char \<Rightarrow> nat) \<Rightarrow> fl) \<Rightarrow> fl" where
  "sum_over [] ix f = f ix"
| "sum_over (cn # cns) ix f =
     fl_sum (map (\<lambda>k. sum_over cns (ix(fst cn := k)) f) [0..<snd cn])"

definition einsum_entry ::
  "string list \<Rightarrow> string \<Rightarrow> (char \<times> nat) list \<Rightarrow> tensor list \<Rightarrow> nat list \<Rightarrow> fl" where
  "einsum_entry ins out sizes ts idx =
     sum_over (filter (\<lambda>cn. fst cn \<notin> set out) sizes)
       (\<lambda>c. case map_of (zip out idx) c of None \<Rightarrow> 0 | Some k \<Rightarrow> k)
       (\<lambda>ix. fl_prod (map (\<lambda>(ls, t). entry t (map ix ls)) (zip ins ts)))"

definition einsum :: "string \<Rightarrow> tensor list \<Rightarrow> error + tensor" where
  "einsum equation ts =
     (case split_arrow equation of
        None \<Rightarrow> Inl RuntimeError
      | Some (lhs, out) \<Rightarrow>
          bindE (bind_all (split_commas lhs) ts []) (\<lambda>sizes.
            if distinct out \<and> list_all (\<lambda>c. map_of sizes c \<noteq> None) out
            then Inr (Tensor (map (\<lambda>c. the (map_of sizes c)) out)
                             (einsum_entry (split_commas lhs) out sizes ts))
            else Inl RuntimeError))"

subsection \<open>Indexing, slicing, joining\<close>

text \<open>A Python index against a length: negative indices count from the end.\<close>

definition py_index :: "int \<Rightarrow> nat \<Rightarrow> error + nat" where
  "py_index i n =
     (let j = (if i < 0 then i + int n else i)
      in if 0 \<le> j \<and> j < int n then Inr (nat j) else Inl IndexError)"

text \<open>\<^verbatim>\<open>tensor[i]\<close> and \<^verbatim>\<open>tensor[:, i]\<close>.\<close>

definition select0 :: "tensor \<Rightarrow> int \<Rightarrow> error + tensor" where
  "select0 t i =
     (case shape t of
        [] \<Rightarrow> Inl IndexError
      | n # sh \<Rightarrow> bindE (py_index i n) (\<lambda>j. Inr (Tensor sh (\<lambda>idx. entry t (j # idx)))))"

definition select1 :: "tensor \<Rightarrow> int \<Rightarrow> error + tensor" where
  "select1 t i =
     (case shape t of
        b # n # sh \<Rightarrow>
          bindE (py_index i n) (\<lambda>j. Inr (Tensor (b # sh) (\<lambda>idx. entry t (hd idx # j # tl idx))))
      | _ \<Rightarrow> Inl IndexError)"

text \<open>
  A slice \<^verbatim>\<open>start:stop:step\<close> with each part optional. The positions it selects in a
  sequence of length \<open>n\<close> follow Python: a negative bound counts from the end, bounds are
  clamped to the sequence. torch refuses a step that is not positive.
\<close>

datatype py_slice = Slice "int option" "int option" "int option"

definition clamp_bound :: "int \<Rightarrow> nat \<Rightarrow> int" where
  "clamp_bound x n = (if x < 0 then max (x + int n) 0 else min x (int n))"

definition slice_indices :: "py_slice \<Rightarrow> nat \<Rightarrow> error + nat list" where
  "slice_indices sl n =
     (case sl of Slice start stop step \<Rightarrow>
        let st = (case step of None \<Rightarrow> 1 | Some s \<Rightarrow> s);
            lo = (case start of None \<Rightarrow> 0 | Some x \<Rightarrow> clamp_bound x n);
            hi = (case stop of None \<Rightarrow> int n | Some x \<Rightarrow> clamp_bound x n)
        in if st \<le> 0 then Inl ValueError
           else Inr (map nat (filter (\<lambda>i. (i - lo) mod st = 0) [lo..hi - 1])))"

text \<open>\<^verbatim>\<open>tensor[start:stop:step]\<close> and \<^verbatim>\<open>tensor[:, start:stop:step]\<close>.\<close>

definition slice0 :: "tensor \<Rightarrow> py_slice \<Rightarrow> error + tensor" where
  "slice0 t sl =
     (case shape t of
        [] \<Rightarrow> Inl IndexError
      | n # sh \<Rightarrow>
          bindE (slice_indices sl n) (\<lambda>js.
            Inr (Tensor (length js # sh) (\<lambda>idx. entry t ((js ! hd idx) # tl idx)))))"

definition slice1 :: "tensor \<Rightarrow> py_slice \<Rightarrow> error + tensor" where
  "slice1 t sl =
     (case shape t of
        b # n # sh \<Rightarrow>
          bindE (slice_indices sl n) (\<lambda>js.
            Inr (Tensor (b # length js # sh)
                   (\<lambda>idx. entry t (hd idx # (js ! hd (tl idx)) # tl (tl idx)))))
      | _ \<Rightarrow> Inl IndexError)"

text \<open>\<^verbatim>\<open>tensor.unsqueeze(0)\<close>, \<^verbatim>\<open>torch.cat\<close> and \<^verbatim>\<open>torch.stack\<close> along axis 0.\<close>

definition unsqueeze0 :: "tensor \<Rightarrow> tensor" where
  "unsqueeze0 t = Tensor (1 # shape t) (\<lambda>idx. entry t (tl idx))"

fun cat_entry :: "tensor list \<Rightarrow> nat list \<Rightarrow> fl" where
  "cat_entry [] idx = Fin 0"
| "cat_entry (t # ts) idx =
     (if hd idx < hd (shape t) then entry t idx
      else cat_entry ts ((hd idx - hd (shape t)) # tl idx))"

definition cat :: "tensor list \<Rightarrow> error + tensor" where
  "cat ts =
     (case ts of
        [] \<Rightarrow> Inl RuntimeError
      | t # rest \<Rightarrow>
          if list_all (\<lambda>u. shape u \<noteq> [] \<and> tl (shape u) = tl (shape t)) ts
          then Inr (Tensor (sum_list (map (\<lambda>u. hd (shape u)) ts) # tl (shape t)) (cat_entry ts))
          else Inl RuntimeError)"

definition stack :: "tensor list \<Rightarrow> error + tensor" where
  "stack ts =
     (case ts of
        [] \<Rightarrow> Inl RuntimeError
      | t # rest \<Rightarrow>
          if list_all (\<lambda>u. shape u = shape t) ts
          then Inr (Tensor (length ts # shape t) (\<lambda>idx. entry (ts ! hd idx) (tl idx)))
          else Inl RuntimeError)"

section \<open>The combination grammar\<close>

text \<open>
  \<^verbatim>\<open>MergedLinearRegion.combine\<close>: two rules, chosen by the classes of the two cores and the
  mode; \<^verbatim>\<open>None\<close> when neither applies.
\<close>

definition combine :: "mps_module \<Rightarrow> mps_module \<Rightarrow> bool \<Rightarrow> error + mps_module" where
  "combine left_core right_core merging =
     (if merging \<and> ((is_OutputSite left_core \<and> is_InputSite right_core) \<or>
                      (is_InputSite left_core \<and> is_OutputSite right_core)) then
        bindE (tensor_of left_core) (\<lambda>lt. bindE (tensor_of right_core) (\<lambda>rt.
          let left_site = is_InputSite left_core in
          bindE (if left_site then einsum ''lui,our->olri'' [lt, rt]
                 else einsum ''olu,uri->olri'' [lt, rt])
            (\<lambda>new_tensor. MergedOutput_init new_tensor (\<not> left_site))))
      else if \<not> merging \<and> ((is_InputRegion left_core \<and> is_InputSite right_core) \<or>
                              (is_InputSite left_core \<and> is_InputRegion right_core)) then
        bindE (tensor_of left_core) (\<lambda>lt. bindE (tensor_of right_core) (\<lambda>rt.
          let left_site = is_InputSite left_core;
              left_tensor = (if left_site then unsqueeze0 lt else lt);
              right_tensor = (if left_site then rt else unsqueeze0 rt)
          in if tl (shape left_tensor) \<noteq> tl (shape right_tensor) then Inl AssertionError
             else bindE (cat [left_tensor, right_tensor]) (\<lambda>new_tensor.
                    Inr (InputRegion new_tensor))))
      else Inr PyNone)"

text \<open>The pairs and modes for which \<^verbatim>\<open>combine\<close> has a rule.\<close>

definition has_rule :: "mps_module \<Rightarrow> mps_module \<Rightarrow> bool \<Rightarrow> bool" where
  "has_rule left_core right_core merging =
     (if merging
      then (is_OutputSite left_core \<and> is_InputSite right_core) \<or>
           (is_InputSite left_core \<and> is_OutputSite right_core)
      else (is_InputRegion left_core \<and> is_InputSite right_core) \<or>
           (is_InputSite left_core \<and> is_InputRegion right_core))"


section \<open>Contractables and the modules the source imports\<close>

text \<open>
  The classes of \<^verbatim>\<open>contractables.py\<close> are not part of the source at hand. A contractable is
  recorded by the constructor call that made it. What the code asks of that module, and of
  \<^verbatim>\<open>utils.py\<close>, is taken as a parameter of the model:
  \<^item> \<open>reduce cl parallel_eval\<close> stands for \<^verbatim>\<open>ContractableList(cl).reduce(parallel_eval)\<close> and
    gives the tensor and the bond string of the contractable it returns;
  \<^item> \<open>bond_str_of\<close> and \<open>ctensor_of\<close> stand for the attributes \<^verbatim>\<open>.bond_str\<close> and \<^verbatim>\<open>.tensor\<close>
    of a contractable;
  \<^item> \<open>svd_flex tensor svd_string max_D cutoff\<close> stands for \<^verbatim>\<open>utils.svd_flex\<close> and gives the
    two factors, the bond dimension and the singular values it writes into \<^verbatim>\<open>sv_vec\<close>;
  \<^item> \<open>init_tensor bond_str shape init_method\<close> stands for \<^verbatim>\<open>utils.init_tensor\<close>.
\<close>

datatype contractable =
    is_SingleMat: SingleMat tensor
  | is_MatRegion: MatRegion tensor
  | is_OutputCore: OutputCore tensor
  | is_EdgeVec: EdgeVec tensor bool

record imported =
  reduce :: "contractable list \<Rightarrow> bool \<Rightarrow> error + (tensor \<times> string)"
  bond_str_of :: "contractable \<Rightarrow> string"
  ctensor_of :: "contractable \<Rightarrow> tensor"
  svd_flex :: "tensor \<Rightarrow> string \<Rightarrow> nat \<Rightarrow> fl \<Rightarrow> error + (tensor \<times> tensor \<times> int \<times> tensor)"
  init_tensor :: "string \<Rightarrow> nat list \<Rightarrow> string \<times> fl \<times> nat \<Rightarrow> error + tensor"

section \<open>Applying a core to its input\<close>

text \<open>The \<^verbatim>\<open>forward\<close> method of each class; calling \<^verbatim>\<open>None\<close> is a TypeError.\<close>

fun forward :: "mps_module \<Rightarrow> tensor \<Rightarrow> error + contractable" where
  "forward (InputRegion tensor) input_data =
     (if length (shape input_data) \<noteq> 3 then Inl AssertionError
      else bindE (len (InputRegion tensor)) (\<lambda>n.
        if shape input_data ! 1 \<noteq> n then Inl AssertionError
        else bindE (tsize tensor 3) (\<lambda>f.
          if shape input_data ! 2 \<noteq> f then Inl AssertionError
          else bindE (einsum ''slri,bsi->bslr'' [tensor, input_data]) (\<lambda>mats.
            Inr (MatRegion mats)))))"
| "forward (MergedInput tensor) input_data =
     (if length (shape input_data) \<noteq> 3 then Inl AssertionError
      else bindE (len (MergedInput tensor)) (\<lambda>n.
        if shape input_data ! 1 \<noteq> n then Inl AssertionError
        else bindE (tsize tensor 3) (\<lambda>f.
          if shape input_data ! 2 \<noteq> f then Inl AssertionError
          else if shape input_data ! 1 mod 2 \<noteq> 0 then Inl AssertionError
          else bindE (slice1 input_data (Slice (Some 0) None (Some 2))) (\<lambda>inputs0.
               bindE (slice1 input_data (Slice (Some 1) None (Some 2))) (\<lambda>inputs1.
               bindE (einsum ''slrij,bsj->bslri'' [tensor, inputs1]) (\<lambda>tensor'.
               bindE (einsum ''bslri,bsi->bslr'' [tensor', inputs0]) (\<lambda>mats.
                 Inr (MatRegion mats))))))))"
| "forward (InputSite tensor) input_data =
     (if length (shape input_data) \<noteq> 2 then Inl AssertionError
      else bindE (tsize tensor 2) (\<lambda>f.
        if shape input_data ! 1 \<noteq> f then Inl AssertionError
        else bindE (einsum ''lri,bi->blr'' [tensor, input_data]) (\<lambda>mat.
          Inr (SingleMat mat))))"
| "forward (OutputSite tensor) input_data = Inr (OutputCore tensor)"
| "forward (MergedOutput tensor left_output) input_data =
     (if length (shape input_data) \<noteq> 2 then Inl AssertionError
      else bindE (tsize tensor 3) (\<lambda>f.
        if shape input_data ! 1 \<noteq> f then Inl AssertionError
        else bindE (einsum ''olri,bi->bolr'' [tensor, input_data]) (\<lambda>tensor'.
          Inr (OutputCore tensor'))))"
| "forward PyNone input_data = Inl TypeError"

section \<open>The chain orchestrator\<close>

text \<open>
  The fields of a \<^verbatim>\<open>LinearRegion\<close>, and those \<^verbatim>\<open>MergedLinearRegion\<close> adds. The two merged
  tilings are attributes that \<^verbatim>\<open>merge\<close> creates on first use: \<open>None\<close> is an attribute not
  set yet.
\<close>

record LinearRegion =
  module_list :: "mps_module list"
  periodic_bc :: bool
  parallel_eval :: bool

record MergedLinearRegion = LinearRegion +
  module_list_0 :: "mps_module list option"
  module_list_1 :: "mps_module list option"
  offset :: nat
  input_counter :: int
  merge_threshold :: int
  cutoff :: fl

text \<open>
  The loop of \<^verbatim>\<open>LinearRegion.forward\<close> that hands each module its slice of the input:
  \<^verbatim>\<open>input_data[:, ind]\<close> for a module of length 1, \<^verbatim>\<open>input_data[:, ind:ind+mod_len]\<close>
  otherwise.
\<close>

fun contract_modules :: "mps_module list \<Rightarrow> nat \<Rightarrow> tensor \<Rightarrow> error + contractable list" where
  "contract_modules [] ind input_data = Inr []"
| "contract_modules (m # ms) ind input_data =
     bindE (len m) (\<lambda>mod_len.
     bindE (if mod_len = 1 then select1 input_data (int ind)
            else slice1 input_data (Slice (Some (int ind)) (Some (int (ind + mod_len))) None))
       (\<lambda>mod_input.
     bindE (forward m mod_input) (\<lambda>c.
     bindE (contract_modules ms (ind + mod_len) input_data) (\<lambda>cs.
       Inr (c # cs)))))"

text \<open>
  The einsum string of the periodic trace: both bond letters become \<^verbatim>\<open>l\<close> on the input
  side and are left out of the output side.
\<close>

definition lin_bonds :: string where
  "lin_bonds = ''lr''"

definition trace_strs :: "string \<Rightarrow> string \<times> string" where
  "trace_strs bond_str =
     foldl (\<lambda>(in_str, out_str) c.
              if c \<in> set lin_bonds then (in_str @ ''l'', out_str)
              else (in_str @ [c], out_str @ [c]))
           ('''', '''') bond_str"

definition ein_str :: "string \<Rightarrow> string" where
  "ein_str bond_str = (case trace_strs bond_str of (in_str, out_str) \<Rightarrow> in_str @ ''->'' @ out_str)"

text \<open>\<^verbatim>\<open>bs.index(c)\<close>: the first position of \<open>c\<close>, ValueError when absent.\<close>

fun str_index :: "string \<Rightarrow> char \<Rightarrow> error + nat" where
  "str_index [] c = Inl ValueError"
| "str_index (x # xs) c = (if x = c then Inr 0 else bindE (str_index xs c) (\<lambda>i. Inr (Suc i)))"

text \<open>\<^verbatim>\<open>vec = torch.zeros(dim); vec[0] = 1\<close>: IndexError for an empty vector.\<close>

definition one_hot :: "nat \<Rightarrow> error + tensor" where
  "one_hot n =
     (if n = 0 then Inl IndexError
      else Inr (Tensor [n] (\<lambda>idx. if hd idx = 0 then Fin 1 else Fin 0)))"

text \<open>
  \<^verbatim>\<open>LinearRegion.forward\<close>, on the module list, the two flags and the site count
  \<^verbatim>\<open>len(self)\<close> of the object it is called on.
\<close>

definition LinearRegion_forward ::
  "imported \<Rightarrow> mps_module list \<Rightarrow> bool \<Rightarrow> bool \<Rightarrow> tensor \<Rightarrow> error + tensor" where
  "LinearRegion_forward ext modules periodic parallel input_data =
     (if length (shape input_data) \<noteq> 3 then Inl AssertionError
      else bindE (LinearRegion_len modules) (\<lambda>n.
        if shape input_data ! 1 \<noteq> n then Inl AssertionError
        else bindE (contract_modules modules 0 input_data) (\<lambda>contractable_list.
          if periodic then
            bindE (reduce ext contractable_list True) (\<lambda>(tensor, bond_str).
              if \<not> list_all (\<lambda>c. c \<in> set bond_str) lin_bonds then Inl AssertionError
              else einsum (ein_str bond_str) [tensor])
          else
            (case contractable_list of
               [] \<Rightarrow> Inl IndexError
             | first # rest \<Rightarrow>
                 let final = last contractable_list in
                 bindE (str_index (bond_str_of ext first) (CHR ''l'')) (\<lambda>ind_l.
                 bindE (str_index (bond_str_of ext final) (CHR ''r'')) (\<lambda>ind_r.
                 bindE (tsize (ctensor_of ext first) ind_l) (\<lambda>dim_l.
                 bindE (tsize (ctensor_of ext final) ind_r) (\<lambda>dim_r.
                 bindE (one_hot dim_l) (\<lambda>vec_l.
                 bindE (one_hot dim_r) (\<lambda>vec_r.
                 bindE (reduce ext ([EdgeVec vec_l True] @ contractable_list @ [EdgeVec vec_r False])
                          parallel)
                   (\<lambda>(tensor, bond_str). Inr tensor)))))))))))"

section \<open>The trace over the two bond axes, in the spec's words\<close>

text \<open>
  The position of a label in a bond string, the labels that are not bond labels, and the
  trace of a labelled tensor: the entry at an index over the remaining axes is the sum,
  over \<open>k\<close>, of the entries that have \<open>k\<close> on both bond axes.
\<close>

definition axis_of :: "string \<Rightarrow> char \<Rightarrow> nat" where
  "axis_of bond_str c = length (takeWhile (\<lambda>x. x \<noteq> c) bond_str)"

definition free_labels :: "string \<Rightarrow> string" where
  "free_labels bond_str = filter (\<lambda>c. c \<noteq> CHR ''l'' \<and> c \<noteq> CHR ''r'') bond_str"

definition diagonal_index :: "string \<Rightarrow> nat list \<Rightarrow> nat \<Rightarrow> nat list" where
  "diagonal_index bond_str idx k =
     map (\<lambda>c. if c = CHR ''l'' \<or> c = CHR ''r'' then k
               else idx ! axis_of (free_labels bond_str) c) bond_str"

definition trace_entry :: "tensor \<Rightarrow> string \<Rightarrow> nat list \<Rightarrow> fl" where
  "trace_entry t bond_str idx =
     fl_sum (map (\<lambda>k. entry t (diagonal_index bond_str idx k))
                 [0..<shape t ! axis_of bond_str (CHR ''l'')])"

section \<open>Merging and unmerging single classes\<close>

text \<open>\<^verbatim>\<open>InputRegion.__getitem__\<close>: an integer key gives an \<open>InputSite\<close>, a slice an \<open>InputRegion\<close>.\<close>

definition getitem_int :: "tensor \<Rightarrow> int \<Rightarrow> error + mps_module" where
  "getitem_int tensor key = bindE (select0 tensor key) (\<lambda>t. Inr (InputSite t))"

definition getitem_slice :: "tensor \<Rightarrow> py_slice \<Rightarrow> error + tensor" where
  "getitem_slice tensor key = slice0 tensor key"

text \<open>\<^verbatim>\<open>xs[0]\<close> on a Python list.\<close>

definition first_item :: "'a list \<Rightarrow> error + 'a" where
  "first_item xs = (case xs of [] \<Rightarrow> Inl IndexError | x # rest \<Rightarrow> Inr x)"

text \<open>
  The main case of \<^verbatim>\<open>InputRegion.merge\<close>, no offset and an even number of sites: the cores at
  even and at odd positions are contracted pairwise into one \<open>MergedInput\<close>.
\<close>

definition merge_pairs :: "tensor \<Rightarrow> error + mps_module list" where
  "merge_pairs tensor =
     bindE (slice0 tensor (Slice (Some 0) None (Some 2))) (\<lambda>even_cores.
     bindE (slice0 tensor (Slice (Some 1) None (Some 2))) (\<lambda>odd_cores.
       if hd (shape even_cores) \<noteq> hd (shape odd_cores) then Inl AssertionError
       else bindE (einsum ''slui,surj->slrij'' [even_cores, odd_cores]) (\<lambda>merged_cores.
            bindE (MergedInput_init merged_cores) (\<lambda>m. Inr [m]))))"

lemma slice_indices_from_1:
  "slice_indices (Slice (Some 1) None None) n = Inr js \<Longrightarrow> 0 < n \<Longrightarrow> length js < n"
  by (auto simp: slice_indices_def clamp_bound_def)

lemma slice_indices_inner:
  "slice_indices (Slice (Some 1) (Some (- 1)) None) n = Inr js \<Longrightarrow> 0 < n \<Longrightarrow> length js < n"
  by (auto simp: slice_indices_def clamp_bound_def)

lemma slice_indices_to_last:
  "slice_indices (Slice None (Some (- 1)) None) n = Inr js \<Longrightarrow> 0 < n \<Longrightarrow> length js < n"
  by (auto simp: slice_indices_def clamp_bound_def)

lemma getitem_slice_shorter:
  assumes "getitem_slice tensor sl = Inr rest" and "tsize tensor 0 = Inr n" and "n \<noteq> 0"
    and "sl = Slice (Some 1) None None \<or> sl = Slice (Some 1) (Some (- 1)) None \<or>
         sl = Slice None (Some (- 1)) None"
  shows "hd (shape rest) < hd (shape tensor)"
proof -
  from assms(2) obtain sh where sh: "shape tensor = n # sh"
    by (cases "shape tensor") (auto simp: tsize_def split: if_splits)
  from assms(1) sh obtain js where js: "slice_indices sl n = Inr js" "shape rest = length js # sh"
    by (auto simp: getitem_slice_def slice0_def bindE_eq_Inr)
  have "length js < n"
    using assms(3,4) js(1) slice_indices_from_1 slice_indices_inner slice_indices_to_last
    by blast
  with sh js(2) show ?thesis by simp
qed

text \<open>A list comprehension whose body can raise.\<close>

fun mapE :: "('a \<Rightarrow> error + 'b) \<Rightarrow> 'a list \<Rightarrow> error + 'b list" where
  "mapE f [] = Inr []"
| "mapE f (x # xs) = bindE (f x) (\<lambda>y. bindE (mapE f xs) (\<lambda>ys. Inr (y # ys)))"

text \<open>
  \<^verbatim>\<open>region.merge(offset=0)[0]\<close>: the first entry of what the call on a sub-region returns.
\<close>

definition first_merged :: "error + mps_module list \<Rightarrow> error + mps_module" where
  "first_merged r = bindE r first_item"

text \<open>
  \<^verbatim>\<open>out_list = [...]\<close>, its entries evaluated from left to right, followed by the last line
  of \<^verbatim>\<open>merge\<close>, \<^verbatim>\<open>[x for x in out_list if x is not None]\<close>.
\<close>

definition out_list_of :: "(error + mps_module) list \<Rightarrow> error + mps_module list" where
  "out_list_of entries = bindE (mapE id entries) (\<lambda>out_list. Inr (filter (\<lambda>x. \<not> is_None x) out_list))"

text \<open>
  \<^verbatim>\<open>InputRegion.merge(offset)\<close> on the region's tensor. An empty region gives \<^verbatim>\<open>[None]\<close>; the
  three cases with an offset or an odd number of sites split single sites off the ends and
  call \<^verbatim>\<open>merge(offset=0)\<close> on the rest, taking the first entry of what it returns.
\<close>

function InputRegion_merge :: "tensor \<Rightarrow> nat \<Rightarrow> error + mps_module list" where
  "InputRegion_merge tensor off =
     (if off \<noteq> 0 \<and> off \<noteq> 1 then Inl AssertionError
      else case tsize tensor 0 of
        Inl e \<Rightarrow> Inl e
      | Inr num_sites \<Rightarrow>
          if num_sites = 0 then Inr [PyNone]
          else if off = 1 \<and> num_sites mod 2 = 1 then
            out_list_of
              [getitem_int tensor 0,
               first_merged (case getitem_slice tensor (Slice (Some 1) None None) of
                               Inl e \<Rightarrow> Inl e | Inr rest \<Rightarrow> InputRegion_merge rest 0)]
          else if off = 1 \<and> num_sites mod 2 = 0 then
            out_list_of
              [getitem_int tensor 0,
               first_merged (case getitem_slice tensor (Slice (Some 1) (Some (- 1)) None) of
                               Inl e \<Rightarrow> Inl e | Inr rest \<Rightarrow> InputRegion_merge rest 0),
               getitem_int tensor (- 1)]
          else if off = 0 \<and> num_sites mod 2 = 1 then
            out_list_of
              [first_merged (case getitem_slice tensor (Slice None (Some (- 1)) None) of
                               Inl e \<Rightarrow> Inl e | Inr rest \<Rightarrow> InputRegion_merge rest 0),
               getitem_int tensor (- 1)]
          else
            bindE (merge_pairs tensor) (\<lambda>out_list. Inr (filter (\<lambda>x. \<not> is_None x) out_list)))"
  by pat_completeness auto
termination
proof (relation "measure (\<lambda>(tensor, off). hd (shape tensor))")
  show "wf (measure (\<lambda>(tensor, off). hd (shape tensor)))" by simp
qed (auto intro: getitem_slice_shorter)

text \<open>The results of \<^verbatim>\<open>unmerge\<close> carry \<^verbatim>\<open>-1\<close> or a vector of singular values per junction.\<close>

datatype sv_entry = SvUnset | SvVec tensor

text \<open>\<^verbatim>\<open>for core in tensor\<close>: the slices along the first axis; a tensor without axes cannot be iterated.\<close>

definition iter_tensor :: "tensor \<Rightarrow> error + tensor list" where
  "iter_tensor t =
     (case shape t of
        [] \<Rightarrow> Inl TypeError
      | n # sh \<Rightarrow> Inr (map (\<lambda>i. Tensor sh (\<lambda>idx. entry t (i # idx))) [0..<n]))"

text \<open>The loop of \<^verbatim>\<open>MergedInput.unmerge\<close> that splits each merged core by \<^verbatim>\<open>svd_flex\<close>.\<close>

fun split_cores ::
  "imported \<Rightarrow> tensor list \<Rightarrow> nat \<Rightarrow> fl \<Rightarrow> error + (tensor list \<times> int list \<times> sv_entry list)" where
  "split_cores ext [] max_D cutoff' = Inr ([], [], [])"
| "split_cores ext (merged_core # rest) max_D cutoff' =
     bindE (svd_flex ext merged_core ''lrij->lui,urj'' max_D cutoff')
       (\<lambda>(left_core, right_core, bond_dim, sv_vec).
     bindE (split_cores ext rest max_D cutoff') (\<lambda>(core_list, bond_list, sv_list).
       Inr (left_core # right_core # core_list, bond_dim # - 1 # bond_list,
            SvVec sv_vec # SvUnset # sv_list)))"

definition MergedInput_unmerge ::
  "imported \<Rightarrow> tensor \<Rightarrow> fl \<Rightarrow> error + (mps_module list \<times> int list \<times> sv_entry list)" where
  "MergedInput_unmerge ext tensor cutoff' =
     bindE (tsize tensor 1) (\<lambda>max_D.
     bindE (iter_tensor tensor) (\<lambda>merged_cores.
     bindE (split_cores ext merged_cores max_D cutoff') (\<lambda>(core_list, bond_list, sv_list).
     bindE (stack core_list) (\<lambda>tensor'.
       Inr ([InputRegion tensor'], - 1 # bond_list, SvUnset # sv_list)))))"

definition MergedOutput_unmerge ::
  "imported \<Rightarrow> tensor \<Rightarrow> bool \<Rightarrow> fl \<Rightarrow> error + (mps_module list \<times> int list \<times> sv_entry list)" where
  "MergedOutput_unmerge ext tensor left_output cutoff' =
     (if left_output then
        bindE (tsize tensor 2) (\<lambda>max_D.
        bindE (svd_flex ext tensor ''olri->olu,uri'' max_D cutoff')
          (\<lambda>(output_core, input_core, bond_dim, sv_vec).
            Inr ([OutputSite output_core, InputSite input_core],
                 [- 1, bond_dim, - 1], [SvUnset, SvVec sv_vec, SvUnset])))
      else
        bindE (tsize tensor 1) (\<lambda>max_D.
        bindE (svd_flex ext tensor ''olri->our,lui'' max_D cutoff')
          (\<lambda>(output_core, input_core, bond_dim, sv_vec).
            Inr ([InputSite input_core, OutputSite output_core],
                 [- 1, bond_dim, - 1], [SvUnset, SvVec sv_vec, SvUnset]))))"

section \<open>Norms and rescaling\<close>

fun fl_sqrt :: "fl \<Rightarrow> fl" where
  "fl_sqrt (Fin a) = (if a < 0 then NaN else Fin (sqrt a))"
| "fl_sqrt PInf = PInf"
| "fl_sqrt x = NaN"

fun fl_log :: "fl \<Rightarrow> fl" where
  "fl_log (Fin a) = (if a < 0 then NaN else if a = 0 then NInf else Fin (ln a))"
| "fl_log PInf = PInf"
| "fl_log x = NaN"

text \<open>
  \<^verbatim>\<open>torch.exp\<close> on a tensor of torch's default dtype, single precision: a result of
  \<open>2 ^ 128\<close> or more lies beyond the largest single-precision number and is \<^verbatim>\<open>inf\<close>.
\<close>

fun fl_exp :: "fl \<Rightarrow> fl" where
  "fl_exp (Fin a) = (if 2 ^ 128 \<le> exp a then PInf else Fin (exp a))"
| "fl_exp PInf = PInf"
| "fl_exp NInf = Fin 0"
| "fl_exp NaN = NaN"

text \<open>Division of a float by a positive Python integer.\<close>

fun fl_div_count :: "fl \<Rightarrow> nat \<Rightarrow> fl" where
  "fl_div_count (Fin a) n = Fin (a / real n)"
| "fl_div_count x n = x"

primrec all_indices :: "nat list \<Rightarrow> nat list list" where
  "all_indices [] = [[]]"
| "all_indices (n # ns) = concat (map (\<lambda>i. map ((#) i) (all_indices ns)) [0..<n])"

text \<open>\<^verbatim>\<open>torch.norm(tensor)\<close>: the square root of the sum of the squared entries.\<close>

definition torch_norm :: "tensor \<Rightarrow> fl" where
  "torch_norm t = fl_sqrt (fl_sum (map (\<lambda>idx. fl_mul (entry t idx) (entry t idx)) (all_indices (shape t))))"

text \<open>\<^verbatim>\<open>get_norm\<close> of each class: one norm per stored core.\<close>

fun get_norm :: "mps_module \<Rightarrow> error + fl list" where
  "get_norm (InputRegion t) = bindE (iter_tensor t) (\<lambda>cores. Inr (map torch_norm cores))"
| "get_norm (MergedInput t) = bindE (iter_tensor t) (\<lambda>cores. Inr (map torch_norm cores))"
| "get_norm (InputSite t) = Inr [torch_norm t]"
| "get_norm (OutputSite t) = Inr [torch_norm t]"
| "get_norm (MergedOutput t lo) = Inr [torch_norm t]"
| "get_norm PyNone = Inl AttributeError"

text \<open>\<^verbatim>\<open>tensor *= scale\<close>, and the same with one scale per slice along the first axis.\<close>

definition scale_tensor :: "tensor \<Rightarrow> fl \<Rightarrow> tensor" where
  "scale_tensor t s = Tensor (shape t) (\<lambda>idx. fl_mul (entry t idx) s)"

definition scale_cores :: "tensor \<Rightarrow> fl list \<Rightarrow> error + tensor" where
  "scale_cores t scale_list =
     (case shape t of
        [] \<Rightarrow> Inl TypeError
      | n # sh \<Rightarrow>
          if length scale_list \<noteq> n then Inl AssertionError
          else Inr (Tensor (shape t) (\<lambda>idx. fl_mul (entry t idx) (scale_list ! hd idx))))"

definition scale_single :: "tensor \<Rightarrow> fl list \<Rightarrow> error + tensor" where
  "scale_single t scale =
     (if length scale \<noteq> 1 then Inl AssertionError else Inr (scale_tensor t (hd scale)))"

fun rescale_norm :: "mps_module \<Rightarrow> fl list \<Rightarrow> error + mps_module" where
  "rescale_norm (InputRegion t) scale_list = bindE (scale_cores t scale_list) (\<lambda>t'. Inr (InputRegion t'))"
| "rescale_norm (MergedInput t) scale_list = bindE (scale_cores t scale_list) (\<lambda>t'. Inr (MergedInput t'))"
| "rescale_norm (InputSite t) scale = bindE (scale_single t scale) (\<lambda>t'. Inr (InputSite t'))"
| "rescale_norm (OutputSite t) scale = bindE (scale_single t scale) (\<lambda>t'. Inr (OutputSite t'))"
| "rescale_norm (MergedOutput t lo) scale = bindE (scale_single t scale) (\<lambda>t'. Inr (MergedOutput t' lo))"
| "rescale_norm PyNone scale = Inl AttributeError"

text \<open>
  The last part of \<^verbatim>\<open>MergedLinearRegion.unmerge\<close>: the mean of the logarithms of all norms,
  then every core scaled by \<^verbatim>\<open>exp(log_scale - log_norm)\<close>. Python's \<^verbatim>\<open>sum\<close> of no norms is the
  integer 0, and dividing it by the count 0 is a ZeroDivisionError.
\<close>

definition rescale :: "mps_module list \<Rightarrow> error + mps_module list" where
  "rescale unmerged_list =
     bindE (mapE (\<lambda>core. bindE (get_norm core) (\<lambda>norms. Inr (map fl_log norms))) unmerged_list)
       (\<lambda>log_norms.
     let total = fl_sum (map fl_sum log_norms);
         count = sum_list (map length log_norms)
     in if count = 0 then Inl ZeroDivisionError
        else
          let log_scale = fl_div_count total count;
              scales = map (map (\<lambda>n. fl_exp (fl_sub log_scale n))) log_norms
          in mapE (\<lambda>(core, these_scales). rescale_norm core these_scales)
                  (zip unmerged_list scales))"

text \<open>
  The position, in the list of norms of a core, of the norm whose scale multiplies the entry
  at \<open>idx\<close>: an \<open>InputRegion\<close> and a \<open>MergedInput\<close> have one norm and one scale per slice along
  the first axis, every other core has one norm in all.
\<close>

definition norm_position :: "mps_module \<Rightarrow> nat list \<Rightarrow> nat" where
  "norm_position m idx = (if is_InputRegion m \<or> is_MergedInput m then hd idx else 0)"

text \<open>A norm that is a finite number greater than zero.\<close>

definition positive_norm :: "fl \<Rightarrow> bool" where
  "positive_norm n = (case n of Fin a \<Rightarrow> 0 < a | _ \<Rightarrow> False)"

section \<open>The adaptive engine\<close>

subsection \<open>Merging a chain\<close>

text \<open>
  The first loop of \<^verbatim>\<open>MergedLinearRegion.merge\<close>: each core that has a \<^verbatim>\<open>merge\<close> method (only
  \<open>InputRegion\<close> has one) is merged internally with the parity of its position, every other
  core is kept; a core that is already merged fails the two assertions.
\<close>

fun merge_cores :: "mps_module list \<Rightarrow> nat \<Rightarrow> error + mps_module list" where
  "merge_cores [] site_num = Inr []"
| "merge_cores (core # rest) site_num =
     (if is_MergedInput core then Inl AssertionError
      else if is_MergedOutput core then Inl AssertionError
      else
        bindE (if is_InputRegion core
               then bindE (tensor_of core) (\<lambda>t. InputRegion_merge t (site_num mod 2))
               else Inr [core]) (\<lambda>new_cores.
        bindE (core_len core) (\<lambda>k.
        bindE (merge_cores rest (site_num + k)) (\<lambda>merged_list.
          Inr (new_cores @ merged_list)))))"

text \<open>
  One pass of the sliding window over \<^verbatim>\<open>merged_list\<close>, from the position whose remaining
  cores are given. A pair is fused when \<^verbatim>\<open>combine\<close> has a rule for it and the site number
  has the parity of the offset; the assertion compares the core counts. A single core left
  over after a step is appended as it is.
\<close>

fun merge_window :: "nat \<Rightarrow> nat \<Rightarrow> mps_module list \<Rightarrow> error + mps_module list" where
  "merge_window off site_num (left_core # right_core # rest) =
     bindE (combine left_core right_core True) (\<lambda>new_core.
       if is_None new_core \<or> off \<noteq> site_num mod 2 then
         bindE (core_len left_core) (\<lambda>k.
         bindE (merge_window off (site_num + k) (right_core # rest)) (\<lambda>combined.
           Inr (left_core # combined)))
       else
         bindE (core_len new_core) (\<lambda>n.
         bindE (core_len left_core) (\<lambda>k.
         bindE (core_len right_core) (\<lambda>k'.
           if n \<noteq> k + k' then Inl AssertionError
           else bindE (merge_window off (site_num + n) rest) (\<lambda>combined.
                  Inr (new_core # combined))))))"
| "merge_window off site_num [last_core] = Inr [last_core]"
| "merge_window off site_num [] = Inr []"

text \<open>
  A whole pass. The inner \<^verbatim>\<open>while mod_num < len(merged_list) - 1\<close> does not run at all on a
  list of fewer than two cores, and \<^verbatim>\<open>combined_list\<close> stays empty.
\<close>

definition merge_pass :: "nat \<Rightarrow> mps_module list \<Rightarrow> error + mps_module list" where
  "merge_pass off merged_list =
     (if length merged_list < 2 then Inr [] else merge_window off 0 merged_list)"

lemma merge_window_length:
  "merge_window off site_num xs = Inr ys \<Longrightarrow> length ys \<le> length xs"
proof (induction off site_num xs arbitrary: ys rule: merge_window.induct)
  case (1 off site_num left_core right_core rest)
  from "1.prems" obtain new_core where nc: "combine left_core right_core True = Inr new_core"
    by (auto simp: bindE_eq_Inr)
  show ?case
  proof (cases "is_None new_core \<or> off \<noteq> site_num mod 2")
    case True
    with "1.prems" nc obtain k combined where
      "core_len left_core = Inr k"
      "merge_window off (site_num + k) (right_core # rest) = Inr combined"
      "ys = left_core # combined"
      by (auto simp: bindE_eq_Inr)
    with "1.IH"(1) [OF True] show ?thesis by fastforce
  next
    case False
    with "1.prems" nc obtain n k k' combined where
      "n = k + k'" "merge_window off (site_num + n) rest = Inr combined" "ys = new_core # combined"
      by (auto simp: bindE_eq_Inr split: if_splits)
    with "1.IH"(2) [OF False, of n k k' combined] show ?thesis by simp
  qed
qed simp_all

lemma merge_pass_length:
  "merge_pass off xs = Inr ys \<Longrightarrow> length ys \<le> length xs"
  by (auto simp: merge_pass_def dest: merge_window_length split: if_splits)

text \<open>
  The outer \<^verbatim>\<open>while True\<close>: passes are repeated until one leaves the length unchanged.
\<close>

function merge_passes :: "nat \<Rightarrow> mps_module list \<Rightarrow> error + mps_module list" where
  "merge_passes off merged_list =
     (case merge_pass off merged_list of
        Inl e \<Rightarrow> Inl e
      | Inr combined_list \<Rightarrow>
          if length combined_list = length merged_list then Inr merged_list
          else merge_passes off combined_list)"
  by pat_completeness auto
termination
proof (relation "measure (\<lambda>(off, merged_list). length merged_list)")
  show "wf (measure (\<lambda>(off, merged_list). length merged_list))" by simp
next
  fix off merged_list combined_list
  assume "merge_pass off merged_list = Inr combined_list"
    and "length combined_list \<noteq> length merged_list"
  then show "((off, combined_list), (off, merged_list)) \<in> measure (\<lambda>(off, merged_list). length merged_list)"
    using merge_pass_length by fastforce
qed

text \<open>\<^verbatim>\<open>module.tensor[:] = tensor\<close>: the module keeps its class and flag.\<close>

fun set_tensor :: "mps_module \<Rightarrow> tensor \<Rightarrow> mps_module" where
  "set_tensor (InputRegion t) u = InputRegion u"
| "set_tensor (MergedInput t) u = MergedInput u"
| "set_tensor (InputSite t) u = InputSite u"
| "set_tensor (OutputSite t) u = OutputSite u"
| "set_tensor (MergedOutput t lo) u = MergedOutput u lo"
| "set_tensor PyNone u = PyNone"

text \<open>
  The in-place update of an existing merged list: every tensor is overwritten by the tensor
  of the same shape at the same position of the new list.
\<close>

fun update_in_place :: "mps_module list \<Rightarrow> mps_module list \<Rightarrow> error + mps_module list" where
  "update_in_place [] merged_list = Inr []"
| "update_in_place (m # ms) [] = Inl IndexError"
| "update_in_place (m # ms) (x # xs) =
     bindE (tensor_of m) (\<lambda>mt.
     bindE (tensor_of x) (\<lambda>xt.
       if shape mt \<noteq> shape xt then Inl AssertionError
       else bindE (update_in_place ms xs) (\<lambda>rest. Inr (set_tensor m xt # rest))))"

text \<open>The attribute \<^verbatim>\<open>module_list_0\<close> or \<^verbatim>\<open>module_list_1\<close>, read and written by name.\<close>

definition get_list :: "MergedLinearRegion \<Rightarrow> nat \<Rightarrow> mps_module list option" where
  "get_list self off = (if off = 0 then module_list_0 self else module_list_1 self)"

definition set_list :: "MergedLinearRegion \<Rightarrow> nat \<Rightarrow> mps_module list \<Rightarrow> MergedLinearRegion" where
  "set_list self off ms =
     (if off = 0 then self\<lparr>module_list_0 := Some ms\<rparr> else self\<lparr>module_list_1 := Some ms\<rparr>)"

text \<open>
  \<^verbatim>\<open>MergedLinearRegion.merge(offset)\<close>: the unmerged \<^verbatim>\<open>self.module_list\<close> is merged into the
  tiling of the given offset, which is created on first use and updated in place afterwards.
\<close>

definition MergedLinearRegion_merge :: "MergedLinearRegion \<Rightarrow> nat \<Rightarrow> error + MergedLinearRegion" where
  "MergedLinearRegion_merge self off =
     (if off \<noteq> 0 \<and> off \<noteq> 1 then Inl AssertionError
      else
        bindE (merge_cores (module_list self) off) (\<lambda>merged_list.
        bindE (merge_passes off merged_list) (\<lambda>merged_list.
          case get_list self off of
            None \<Rightarrow> Inr (set_list self off merged_list)
          | Some existing \<Rightarrow>
              if length existing \<noteq> length merged_list then Inl AssertionError
              else bindE (update_in_place existing merged_list) (\<lambda>updated.
                     Inr (set_list self off updated)))))"

subsection \<open>Unmerging a chain\<close>

text \<open>\<^verbatim>\<open>hasattr(core, 'unmerge')\<close> and the method behind it.\<close>

fun has_unmerge :: "mps_module \<Rightarrow> bool" where
  "has_unmerge (MergedInput t) = True"
| "has_unmerge (MergedOutput t lo) = True"
| "has_unmerge m = False"

fun module_unmerge ::
  "imported \<Rightarrow> mps_module \<Rightarrow> fl \<Rightarrow> error + (mps_module list \<times> int list \<times> sv_entry list)" where
  "module_unmerge ext (MergedInput t) cutoff' = MergedInput_unmerge ext t cutoff'"
| "module_unmerge ext (MergedOutput t lo) cutoff' = MergedOutput_unmerge ext t lo cutoff'"
| "module_unmerge ext m cutoff' = Inl AttributeError"

text \<open>
  The first loop of \<^verbatim>\<open>MergedLinearRegion.unmerge\<close>, without the leading \<^verbatim>\<open>-1\<close> of the two
  bookkeeping lists: a core with \<^verbatim>\<open>unmerge\<close> contributes its new cores and all but the first
  entry of its lists, any other core itself and one \<^verbatim>\<open>-1\<close>.
\<close>

fun unmerge_cores ::
  "imported \<Rightarrow> mps_module list \<Rightarrow> fl \<Rightarrow> error + (mps_module list \<times> int list \<times> sv_entry list)" where
  "unmerge_cores ext [] cutoff' = Inr ([], [], [])"
| "unmerge_cores ext (core # rest) cutoff' =
     (if has_unmerge core then
        bindE (module_unmerge ext core cutoff') (\<lambda>(new_cores, new_bonds, new_svs).
        bindE (unmerge_cores ext rest cutoff') (\<lambda>(unmerged_list, bond_list, sv_list).
          Inr (new_cores @ unmerged_list, tl new_bonds @ bond_list, tl new_svs @ sv_list)))
      else if is_InputRegion core then Inl AssertionError
      else
        bindE (unmerge_cores ext rest cutoff') (\<lambda>(unmerged_list, bond_list, sv_list).
          Inr (core # unmerged_list, - 1 # bond_list, SvUnset # sv_list)))"

text \<open>The sliding window of the second loop, with \<^verbatim>\<open>merging=False\<close>.\<close>

fun unmerge_window :: "mps_module list \<Rightarrow> error + mps_module list" where
  "unmerge_window (left_core # right_core # rest) =
     bindE (combine left_core right_core False) (\<lambda>new_core.
       if is_None new_core then
         bindE (unmerge_window (right_core # rest)) (\<lambda>combined. Inr (left_core # combined))
       else
         bindE (unmerge_window rest) (\<lambda>combined. Inr (new_core # combined)))"
| "unmerge_window [last_core] = Inr [last_core]"
| "unmerge_window [] = Inr []"

definition unmerge_pass :: "mps_module list \<Rightarrow> error + mps_module list" where
  "unmerge_pass unmerged_list =
     (if length unmerged_list < 2 then Inr [] else unmerge_window unmerged_list)"

lemma unmerge_window_length:
  "unmerge_window xs = Inr ys \<Longrightarrow> length ys \<le> length xs"
proof (induction xs arbitrary: ys rule: unmerge_window.induct)
  case (1 left_core right_core rest)
  from "1.prems" obtain new_core where nc: "combine left_core right_core False = Inr new_core"
    by (auto simp: bindE_eq_Inr)
  show ?case
  proof (cases "is_None new_core")
    case True
    with "1.prems" nc obtain combined where
      "unmerge_window (right_core # rest) = Inr combined" "ys = left_core # combined"
      by (auto simp: bindE_eq_Inr)
    with "1.IH"(1) [OF True] show ?thesis by fastforce
  next
    case False
    with "1.prems" nc obtain combined where
      "unmerge_window rest = Inr combined" "ys = new_core # combined"
      by (auto simp: bindE_eq_Inr)
    with "1.IH"(2) [OF False] show ?thesis by fastforce
  qed
qed simp_all

lemma unmerge_pass_length:
  "unmerge_pass xs = Inr ys \<Longrightarrow> length ys \<le> length xs"
  by (auto simp: unmerge_pass_def dest: unmerge_window_length split: if_splits)

function unmerge_passes :: "mps_module list \<Rightarrow> error + mps_module list" where
  "unmerge_passes unmerged_list =
     (case unmerge_pass unmerged_list of
        Inl e \<Rightarrow> Inl e
      | Inr combined_list \<Rightarrow>
          if length combined_list = length unmerged_list then Inr unmerged_list
          else unmerge_passes combined_list)"
  by pat_completeness auto
termination
proof (relation "measure length")
  show "wf (measure length)" by simp
next
  fix unmerged_list combined_list :: "mps_module list"
  assume "unmerge_pass unmerged_list = Inr combined_list"
    and "length combined_list \<noteq> length unmerged_list"
  then show "(combined_list, unmerged_list) \<in> measure length"
    using unmerge_pass_length by fastforce
qed

text \<open>\<^verbatim>\<open>getattr(self, f"module_list_{offset}")\<close>: AttributeError when not set.\<close>

definition getattr_list :: "MergedLinearRegion \<Rightarrow> nat \<Rightarrow> error + mps_module list" where
  "getattr_list self off =
     (case get_list self off of None \<Rightarrow> Inl AttributeError | Some ms \<Rightarrow> Inr ms)"

text \<open>
  \<^verbatim>\<open>MergedLinearRegion.unmerge(cutoff)\<close>: the active tiling is unmerged, tidied, rescaled and
  stored as \<^verbatim>\<open>self.module_list\<close>; the two bookkeeping lists are returned. Cores are values
  here. In the code a core that has no \<^verbatim>\<open>unmerge\<close> is the same object in the active tiling and
  in the unmerged list, so rescaling it in place also changes the entries of the tensor held
  by the stored tiling. This sharing is not tracked: of a stored tiling that has been
  unmerged, the classes and the shapes are those of the code, the entries need not be.
\<close>

definition MergedLinearRegion_unmerge ::
  "imported \<Rightarrow> MergedLinearRegion \<Rightarrow> fl \<Rightarrow>
   error + ((int list \<times> sv_entry list) \<times> MergedLinearRegion)" where
  "MergedLinearRegion_unmerge ext self cutoff' =
     bindE (getattr_list self (offset self)) (\<lambda>merged_list.
     bindE (unmerge_cores ext merged_list cutoff') (\<lambda>(unmerged_list, bond_list, sv_list).
     bindE (unmerge_passes unmerged_list) (\<lambda>unmerged_list.
     bindE (rescale unmerged_list) (\<lambda>unmerged_list.
       Inr ((- 1 # bond_list, SvUnset # sv_list), self\<lparr>module_list := unmerged_list\<rparr>)))))"

subsection \<open>Construction and the forward call\<close>

text \<open>
  \<^verbatim>\<open>LinearRegion.__init__\<close> checks that every entry is a module. The test
  \<^verbatim>\<open>module_list is []\<close> of the source is never true, so an empty list is accepted.
\<close>

definition LinearRegion_init :: "mps_module list \<Rightarrow> bool \<Rightarrow> bool \<Rightarrow> error + LinearRegion" where
  "LinearRegion_init modules periodic parallel =
     (if list_ex is_None modules then Inl ValueError
      else Inr \<lparr>module_list = modules, periodic_bc = periodic, parallel_eval = parallel\<rparr>)"

definition MergedLinearRegion_init ::
  "mps_module list \<Rightarrow> bool \<Rightarrow> bool \<Rightarrow> fl \<Rightarrow> int \<Rightarrow> error + MergedLinearRegion" where
  "MergedLinearRegion_init modules periodic parallel cutoff' threshold =
     bindE (LinearRegion_init modules periodic parallel) (\<lambda>base.
       let self = \<lparr>module_list = module_list base, periodic_bc = periodic_bc base,
                   parallel_eval = parallel_eval base,
                   module_list_0 = None, module_list_1 = None, offset = 0,
                   input_counter = 0, merge_threshold = threshold, cutoff = cutoff'\<rparr>
       in bindE (MergedLinearRegion_merge self (offset self)) (\<lambda>self.
          bindE (MergedLinearRegion_merge self ((offset self + 1) mod 2)) (\<lambda>self.
          bindE (getattr_list self (offset self)) (\<lambda>active.
            Inr (self\<lparr>module_list := active\<rparr>)))))"

text \<open>What an adaptive forward call returns: the output alone, or the triple.\<close>

datatype forward_result =
    is_Plain: Plain tensor
  | is_Triple: Triple tensor "int list" "sv_entry list"

text \<open>
  The branch of \<^verbatim>\<open>MergedLinearRegion.forward\<close> taken when the threshold is hit: unmerge the
  active tiling, flip the offset, merge into the other tiling, take the threshold off the
  counter and make that tiling the module list.
\<close>

definition structural_cycle ::
  "imported \<Rightarrow> MergedLinearRegion \<Rightarrow> error + ((int list \<times> sv_entry list) \<times> MergedLinearRegion)" where
  "structural_cycle ext self =
     bindE (MergedLinearRegion_unmerge ext self (cutoff self)) (\<lambda>(lists, self).
     let self = self\<lparr>offset := (offset self + 1) mod 2\<rparr> in
     bindE (MergedLinearRegion_merge self (offset self)) (\<lambda>self.
     let self = self\<lparr>input_counter := input_counter self - merge_threshold self\<rparr> in
     bindE (getattr_list self (offset self)) (\<lambda>active.
       Inr (lists, self\<lparr>module_list := active\<rparr>))))"

text \<open>
  \<^verbatim>\<open>MergedLinearRegion.forward\<close>. The counter is compared with the threshold before the batch
  size of this call is added; \<^verbatim>\<open>if bond_list:\<close> is true for a list that is not empty.
\<close>

definition MergedLinearRegion_forward ::
  "imported \<Rightarrow> MergedLinearRegion \<Rightarrow> tensor \<Rightarrow> error + (forward_result \<times> MergedLinearRegion)" where
  "MergedLinearRegion_forward ext self input_data =
     bindE (if input_counter self \<ge> merge_threshold self
            then bindE (structural_cycle ext self) (\<lambda>(lists, self). Inr (Some lists, self))
            else Inr (None, self)) (\<lambda>(lists, self).
     bindE (tsize input_data 0) (\<lambda>batch_size.
     let self = self\<lparr>input_counter := input_counter self + int batch_size\<rparr> in
     bindE (LinearRegion_forward ext (module_list self) (periodic_bc self) (parallel_eval self)
              input_data) (\<lambda>output.
       case lists of
         None \<Rightarrow> Inr (Plain output, self)
       | Some (bond_list, sv_list) \<Rightarrow>
           if bond_list \<noteq> [] then Inr (Triple output bond_list sv_list, self)
           else Inr (Plain output, self))))"

subsection \<open>Tilings\<close>




section \<open>The model\<close>

text \<open>
  \<^verbatim>\<open>MPS\<close> holds either kind of region. Its bond list is a vector of integers and its list of
  singular values has one row per junction.
\<close>

datatype region = Fixed LinearRegion | Adaptive MergedLinearRegion

record MPS =
  input_dim :: nat
  output_dim :: nat
  bond_dim :: nat
  feature_dim :: nat
  mps_periodic_bc :: bool
  adaptive_mode :: bool
  label_site :: nat
  path :: "int list option"
  mps_cutoff :: fl
  mps_merge_threshold :: int
  feature_map :: "(tensor \<Rightarrow> error + tensor) option"
  bond_list :: "int list"
  sv_list :: "tensor list"
  linear_region :: region

text \<open>\<^verbatim>\<open>len(self.linear_region)\<close>, for either class.\<close>

fun region_len :: "region \<Rightarrow> error + nat" where
  "region_len (Fixed r) = LinearRegion_len (module_list r)"
| "region_len (Adaptive r) = LinearRegion_len (module_list r)"

text \<open>
  \<^verbatim>\<open>MPS.__init__\<close>. The label site is a position between 0 and \<^verbatim>\<open>input_dim\<close>; the tensors come
  from \<^verbatim>\<open>init_tensor\<close>.
\<close>

definition MPS_init ::
  "imported \<Rightarrow> nat \<Rightarrow> nat \<Rightarrow> nat \<Rightarrow> nat \<Rightarrow> bool \<Rightarrow> bool \<Rightarrow> bool \<Rightarrow> nat option \<Rightarrow>
   int list option \<Rightarrow> fl \<Rightarrow> int \<Rightarrow> fl \<Rightarrow> error + MPS" where
  "MPS_init ext input_dim' output_dim' bond_dim' feature_dim' adaptive periodic parallel
            label_site' path' cutoff' threshold init_std =
     (let site = (case label_site' of None \<Rightarrow> input_dim' div 2 | Some s \<Rightarrow> s);
          init_method = (if adaptive then ''min_random_eye'' else ''random_eye'', init_std, output_dim')
      in
      if \<not> site \<le> input_dim' then Inl AssertionError
      else
        bindE (if site > 0
               then bindE (init_tensor ext ''slri'' [site, bond_dim', bond_dim', feature_dim'] init_method)
                          (\<lambda>t. Inr [InputRegion t])
               else Inr []) (\<lambda>left_region.
        bindE (init_tensor ext ''olr'' [output_dim', bond_dim', bond_dim'] init_method) (\<lambda>t.
        bindE (if site < input_dim'
               then bindE (init_tensor ext ''slri''
                             [input_dim' - site, bond_dim', bond_dim', feature_dim'] init_method)
                          (\<lambda>t. Inr [InputRegion t])
               else Inr []) (\<lambda>right_region.
        let modules = left_region @ [OutputSite t] @ right_region in
        bindE (if adaptive
               then bindE (MergedLinearRegion_init modules periodic parallel cutoff' threshold)
                          (\<lambda>r. Inr (Adaptive r))
               else bindE (LinearRegion_init modules periodic parallel) (\<lambda>r. Inr (Fixed r)))
          (\<lambda>region.
        bindE (region_len region) (\<lambda>n.
          if n \<noteq> input_dim' then Inl AssertionError
          else if (case path' of None \<Rightarrow> False | Some p \<Rightarrow> p \<noteq> [] \<and> length p \<noteq> input_dim')
          then Inl AssertionError
          else
            Inr \<lparr>input_dim = input_dim', output_dim = output_dim', bond_dim = bond_dim',
                 feature_dim = feature_dim', mps_periodic_bc = periodic,
                 adaptive_mode = adaptive, label_site = site, path = path',
                 mps_cutoff = cutoff', mps_merge_threshold = threshold, feature_map = None,
                 bond_list = (if periodic then replicate (input_dim' + 2) (int bond_dim')
                              else (replicate (input_dim' + 2) (int bond_dim'))
                                     [0 := 1, input_dim' + 1 := 1]),
                 sv_list = replicate (input_dim' + 2) (full [bond_dim'] (Fin (- 1))),
                 linear_region = region\<rparr>))))))"

text \<open>
  \<^verbatim>\<open>MPS.embed_input\<close>. Input with three axes is taken as embedded already; input with two is
  embedded by the registered feature map, or by the default map \<^verbatim>\<open>(x, 1 - x)\<close>.
\<close>

definition embed_input :: "MPS \<Rightarrow> tensor \<Rightarrow> error + tensor" where
  "embed_input self input_data =
     (let sh = shape input_data in
      if length sh \<noteq> 2 \<and> length sh \<noteq> 3 then Inl AssertionError
      else if sh ! 1 \<noteq> input_dim self then Inl AssertionError
      else if length sh = 3 then
        (if sh ! 2 \<noteq> feature_dim self then Inl ValueError else Inr input_data)
      else
        (case feature_map self of
           Some f_map \<Rightarrow>
             bindE (iter_tensor input_data) (\<lambda>batches.
             bindE (mapE (\<lambda>batch. bindE (iter_tensor batch) (\<lambda>xs.
                                   bindE (mapE f_map xs) stack)) batches) (\<lambda>rows.
             bindE (stack rows) (\<lambda>embedded_data.
               if shape embedded_data \<noteq> [sh ! 0, input_dim self, feature_dim self]
               then Inl AssertionError
               else Inr embedded_data)))
         | None \<Rightarrow>
             if feature_dim self \<noteq> 2 then Inl RuntimeError
             else Inr (Tensor (sh @ [feature_dim self])
                         (\<lambda>idx. if idx ! 2 = 0 then entry input_data (take 2 idx)
                                else fl_sub (Fin 1) (entry input_data (take 2 idx))))))"

text \<open>
  \<^verbatim>\<open>self.sv_list[i] = new_svs[i]\<close>: the row takes the values of a vector of its own shape, or
  of a vector with one entry, repeated; any other shape is refused by torch.
\<close>

definition assign_row :: "tensor \<Rightarrow> tensor \<Rightarrow> error + tensor" where
  "assign_row row v =
     (if shape v = shape row then Inr (Tensor (shape row) (entry v))
      else if shape v = [] \<or> shape v = [1]
      then Inr (Tensor (shape row) (\<lambda>idx. entry v (map (\<lambda>n. 0) (shape v))))
      else Inl RuntimeError)"

text \<open>
  The loop of \<^verbatim>\<open>MPS.forward\<close> over \<^verbatim>\<open>enumerate(new_bonds)\<close>, from position \<open>i\<close> on. An entry
  \<^verbatim>\<open>-1\<close> is skipped; any other entry is stored, with its singular values, at its position.
\<close>

fun update_bonds ::
  "nat \<Rightarrow> int list \<Rightarrow> sv_entry list \<Rightarrow> int list \<Rightarrow> tensor list \<Rightarrow> error + (int list \<times> tensor list)" where
  "update_bonds i [] new_svs bonds svs = Inr (bonds, svs)"
| "update_bonds i (bond_dim' # rest) new_svs bonds svs =
     (if bond_dim' \<noteq> - 1 then
        (if \<not> i < length new_svs then Inl IndexError
         else case new_svs ! i of
           SvUnset \<Rightarrow> Inl AssertionError
         | SvVec v \<Rightarrow>
             if \<not> i < length bonds then Inl IndexError
             else if \<not> i < length svs then Inl IndexError
             else bindE (assign_row (svs ! i) v) (\<lambda>row.
                    update_bonds (i + 1) rest new_svs (bonds[i := bond_dim']) (svs[i := row])))
      else update_bonds (i + 1) rest new_svs bonds svs)"

text \<open>\<^verbatim>\<open>torch.stack(tensors, dim=1)\<close>.\<close>

definition stack1 :: "tensor list \<Rightarrow> error + tensor" where
  "stack1 ts =
     (case ts of
        [] \<Rightarrow> Inl RuntimeError
      | t # rest \<Rightarrow>
          if shape t \<noteq> [] \<and> list_all (\<lambda>u. shape u = shape t) ts
          then Inr (Tensor (hd (shape t) # length ts # tl (shape t))
                      (\<lambda>idx. entry (ts ! hd (tl idx)) (hd idx # tl (tl idx))))
          else Inl RuntimeError)"

text \<open>Calling the region: a fixed region returns the output alone and does not change.\<close>

fun region_forward :: "imported \<Rightarrow> region \<Rightarrow> tensor \<Rightarrow> error + (forward_result \<times> region)" where
  "region_forward ext (Fixed r) input_data =
     bindE (LinearRegion_forward ext (module_list r) (periodic_bc r) (parallel_eval r) input_data)
       (\<lambda>output. Inr (Plain output, Fixed r))"
| "region_forward ext (Adaptive r) input_data =
     bindE (MergedLinearRegion_forward ext r input_data) (\<lambda>(res, r'). Inr (res, Adaptive r'))"

text \<open>
  \<^verbatim>\<open>MPS.forward\<close>: reorder by the path (its first loop, \<open>reorder_by_path\<close>), embed, call
  the region, and when the region returns a triple store the new bond dimensions and
  singular values. The caller gets the output.
\<close>

definition reorder_by_path :: "MPS \<Rightarrow> tensor \<Rightarrow> error + tensor" where
  "reorder_by_path self input_data =
     (case path self of
        None \<Rightarrow> Inr input_data
      | Some p \<Rightarrow>
          if p = [] then Inr input_data
          else bindE (mapE (\<lambda>site_num. select1 input_data site_num) p) stack1)"

definition MPS_forward :: "imported \<Rightarrow> MPS \<Rightarrow> tensor \<Rightarrow> error + (tensor \<times> MPS)" where
  "MPS_forward ext self input_data =
     bindE (reorder_by_path self input_data) (\<lambda>input_data.
     bindE (embed_input self input_data) (\<lambda>input_data.
     bindE (region_forward ext (linear_region self) input_data) (\<lambda>(res, region').
       case res of
         Plain output \<Rightarrow> Inr (output, self\<lparr>linear_region := region'\<rparr>)
       | Triple output new_bonds new_svs \<Rightarrow>
           if length new_bonds \<noteq> length (bond_list self) then Inl AssertionError
           else if length new_bonds \<noteq> length new_svs then Inl AssertionError
           else
             bindE (update_bonds 0 new_bonds new_svs (bond_list self) (sv_list self))
               (\<lambda>(bonds, svs).
                 Inr (output, self\<lparr>linear_region := region', bond_list := bonds, sv_list := svs\<rparr>)))))"

section \<open>A small instance of the imported modules\<close>

text \<open>
  Modelled from the spec: \<^verbatim>\<open>contractables.py\<close> and \<^verbatim>\<open>utils.py\<close> are missing from the source at
  hand. The spec describes a contractable as a tensor with index-role labels, contraction
  as matching the shared bond label of two neighbours, and the sequential reducer as a fold
  from left to right. The instance below follows that description with the labels the
  source uses (\<^verbatim>\<open>b\<close> batch, \<^verbatim>\<open>o\<close> output, \<^verbatim>\<open>l\<close> and \<^verbatim>\<open>r\<close> bonds, \<^verbatim>\<open>s\<close> site). It is used to
  run the model on concrete chains; the theorems hold for every instance.
\<close>

definition labelled :: "contractable \<Rightarrow> (tensor \<times> string) list" where
  "labelled c =
     (case c of
        SingleMat t \<Rightarrow> [(t, ''blr'')]
      | MatRegion t \<Rightarrow>
          map (\<lambda>i. (Tensor (hd (shape t) # tl (tl (shape t)))
                       (\<lambda>idx. entry t (hd idx # i # tl idx)), ''blr''))
              [0..<shape t ! 1]
      | OutputCore t \<Rightarrow> [(t, if length (shape t) = 3 then ''olr'' else ''bolr'')]
      | EdgeVec t is_left_vec \<Rightarrow> [(t, if is_left_vec then ''r'' else ''l'')])"

text \<open>
  The product of two neighbours: the right bond of the left factor is contracted with the
  left bond of the right factor.
\<close>

definition multiply :: "tensor \<times> string \<Rightarrow> tensor \<times> string \<Rightarrow> error + (tensor \<times> string)" where
  "multiply a b =
     (case (a, b) of ((ta, sa), (tb, sb)) \<Rightarrow>
        if CHR ''r'' \<notin> set sa \<or> CHR ''l'' \<notin> set sb then Inl RuntimeError
        else
          let sa' = map (\<lambda>c. if c = CHR ''r'' then CHR ''u'' else c) sa;
              sb' = map (\<lambda>c. if c = CHR ''l'' then CHR ''u'' else c) sb;
              out = filter (\<lambda>c. c \<in> set sa \<or> c \<in> set sb) ''bo'' @
                    filter (\<lambda>c. c \<in> set sa) ''l'' @ filter (\<lambda>c. c \<in> set sb) ''r''
          in bindE (einsum (sa' @ '','' @ sb' @ ''->'' @ out) [ta, tb]) (\<lambda>t. Inr (t, out)))"

fun multiply_all :: "tensor \<times> string \<Rightarrow> (tensor \<times> string) list \<Rightarrow> error + (tensor \<times> string)" where
  "multiply_all acc [] = Inr acc"
| "multiply_all acc (x # xs) = bindE (multiply acc x) (\<lambda>acc'. multiply_all acc' xs)"

definition sequential_reduce :: "contractable list \<Rightarrow> bool \<Rightarrow> error + (tensor \<times> string)" where
  "sequential_reduce cl parallel =
     (case concat (map labelled cl) of
        [] \<Rightarrow> Inl RuntimeError
      | x # xs \<Rightarrow> multiply_all x xs)"

text \<open>
  Modelled from the spec: \<^verbatim>\<open>svd_flex\<close> splits a merged core into two factors joined by a new
  bond padded to the retained rank \<^verbatim>\<open>max_D\<close>. The instance returns factors of these shapes
  with constant entries and the full rank; it stands for the shapes of the split only.
\<close>

definition constant_svd_flex ::
  "tensor \<Rightarrow> string \<Rightarrow> nat \<Rightarrow> fl \<Rightarrow> error + (tensor \<times> tensor \<times> int \<times> tensor)" where
  "constant_svd_flex t svd_string max_D cutoff' =
     (case shape t of
        [a, b, c, d] \<Rightarrow>
          if svd_string = ''olri->olu,uri''
          then Inr (full [a, b, max_D] (Fin 1), full [max_D, c, d] (Fin 1), int max_D,
                    full [max_D] (Fin 1))
          else if svd_string = ''olri->our,lui''
          then Inr (full [a, max_D, c] (Fin 1), full [b, max_D, d] (Fin 1), int max_D,
                    full [max_D] (Fin 1))
          else if svd_string = ''lrij->lui,urj''
          then Inr (full [a, max_D, c] (Fin 1), full [max_D, b, d] (Fin 1), int max_D,
                    full [max_D] (Fin 1))
          else Inl RuntimeError
      | _ \<Rightarrow> Inl RuntimeError)"

definition instance_ext :: imported where
  "instance_ext =
     \<lparr>reduce = sequential_reduce,
      bond_str_of = (\<lambda>c. case c of SingleMat t \<Rightarrow> ''blr'' | MatRegion t \<Rightarrow> ''bslr''
                          | OutputCore t \<Rightarrow> (if length (shape t) = 3 then ''olr'' else ''bolr'')
                          | EdgeVec t is_left_vec \<Rightarrow> (if is_left_vec then ''r'' else ''l'')),
      ctensor_of = (\<lambda>c. case c of SingleMat t \<Rightarrow> t | MatRegion t \<Rightarrow> t | OutputCore t \<Rightarrow> t
                         | EdgeVec t is_left_vec \<Rightarrow> t),
      svd_flex = constant_svd_flex,
      init_tensor = (\<lambda>bond_str' sh init_method. Inr (full sh (Fin 1)))\<rparr>"

section \<open>Successive calls and an example model\<close>

text \<open>Successive forward calls on an adaptive region, each on the state the last one left.\<close>

fun forward_calls ::
  "imported \<Rightarrow> MergedLinearRegion \<Rightarrow> tensor list \<Rightarrow>
   error + (forward_result list \<times> MergedLinearRegion)" where
  "forward_calls ext self [] = Inr ([], self)"
| "forward_calls ext self (x # xs) =
     bindE (MergedLinearRegion_forward ext self x) (\<lambda>(res, self').
     bindE (forward_calls ext self' xs) (\<lambda>(rs, self''). Inr (res # rs, self'')))"

fun MPS_calls :: "imported \<Rightarrow> MPS \<Rightarrow> tensor list \<Rightarrow> error + (tensor list \<times> MPS)" where
  "MPS_calls ext self [] = Inr ([], self)"
| "MPS_calls ext self (x # xs) =
     bindE (MPS_forward ext self x) (\<lambda>(out, self').
     bindE (MPS_calls ext self' xs) (\<lambda>(outs, self''). Inr (out # outs, self'')))"

text \<open>
  An adaptive model of two input sites around the output site, with three output classes,
  bond dimension 2, feature dimension 2 and merge threshold 10, and a batch of four inputs
  that are embedded already.
\<close>

definition example_mps :: "error + MPS" where
  "example_mps =
     MPS_init instance_ext 2 3 2 2 True False False None None (Fin 0) 10 (Fin 1)"

definition example_batch :: tensor where
  "example_batch = full [4, 2, 2] (Fin 1)"

text \<open>The chain of that model as an adaptive region of its own, built from the same tensors.\<close>

definition example_region :: "error + MergedLinearRegion" where
  "example_region =
     MergedLinearRegion_init
       [InputRegion (full [1, 2, 2, 2] (Fin 1)), OutputSite (full [3, 2, 2] (Fin 1)),
        InputRegion (full [1, 2, 2, 2] (Fin 1))]
       False False (Fin 0) 10"

text \<open>
  Two chains for the periodic boundary: two input sites on each side of the output site with
  bond dimension 2 throughout, and a chain whose two outer bonds have sizes 2 and 3.
\<close>

definition periodic_chain :: "mps_module list" where
  "periodic_chain =
     [InputRegion (full [2, 2, 2, 2] (Fin 1)), OutputSite (full [3, 2, 2] (Fin 1)),
      InputRegion (full [2, 2, 2, 2] (Fin 1))]"

definition periodic_batch :: tensor where
  "periodic_batch = full [4, 4, 2] (Fin 1)"

definition uneven_chain :: "mps_module list" where
  "uneven_chain = [InputSite (full [2, 3, 2] (Fin 1)), OutputSite (full [3, 3, 3] (Fin 1))]"

definition uneven_batch :: tensor where
  "uneven_batch = full [4, 1, 2] (Fin 1)"

text \<open>
  Two input regions of single-entry cores for the rescale step: one whose first core is
  zero, and one of 32 cores whose norms are finite and greater than zero but far apart,
  \<open>1 / 2 ^ 70\<close> for the first and \<open>2 ^ 63\<close> for the others (their squares are single-precision
  numbers).
\<close>

definition zero_slice_region :: mps_module where
  "zero_slice_region =
     InputRegion (Tensor [2, 1, 1, 1] (\<lambda>idx. Fin (if hd idx = 0 then 0 else 1)))"

definition spread_region :: mps_module where
  "spread_region =
     InputRegion (Tensor [32, 1, 1, 1] (\<lambda>idx. Fin (if hd idx = 0 then 1 / 2 ^ 70 else 2 ^ 63)))"
section \<open>Length invariants\<close>

lemma sum_results_Cons_Inr:
  "sum_results (r # rs) = Inr k \<longleftrightarrow> (\<exists>n m. r = Inr n \<and> sum_results rs = Inr m \<and> k = n + m)"
  by (auto simp: bindE_eq_Inr)

lemma core_len_len:
  "core_len m = Inr c \<Longrightarrow> len m = Inr n \<Longrightarrow> c = n + (if has_output m then 1 else 0)"
  by (cases m) auto

lemma chain_core_len_len:
  "LinearRegion_core_len ms = Inr c \<Longrightarrow> LinearRegion_len ms = Inr n \<Longrightarrow>
   c = n + length (filter has_output ms)"
  unfolding LinearRegion_core_len_def LinearRegion_len_def
proof (induction ms arbitrary: c n)
  case Nil
  then show ?case by simp
next
  case (Cons m ms)
  from Cons.prems(1) obtain c1 c2 where c: "core_len m = Inr c1" "sum_results (map core_len ms) = Inr c2" "c = c1 + c2"
    by (auto simp: sum_results_Cons_Inr simp del: sum_results.simps)
  from Cons.prems(2) obtain n1 n2 where n: "len m = Inr n1" "sum_results (map len ms) = Inr n2" "n = n1 + n2"
    by (auto simp: sum_results_Cons_Inr simp del: sum_results.simps)
  have "c2 = n2 + length (filter has_output ms)"
    using Cons.IH c(2) n(2) by simp
  moreover have "c1 = n1 + (if has_output m then 1 else 0)"
    using core_len_len c(1) n(1) by simp
  ultimately show ?case using c(3) n(3) by simp
qed


lemma chain_len_of_core_len:
  "LinearRegion_core_len ms = Inr c \<Longrightarrow> \<exists>n. LinearRegion_len ms = Inr n"
  unfolding LinearRegion_core_len_def LinearRegion_len_def
proof (induction ms arbitrary: c)
  case Nil
  then show ?case by simp
next
  case (Cons m ms)
  from Cons.prems obtain c1 c2 where c: "core_len m = Inr c1" "sum_results (map core_len ms) = Inr c2"
    by (auto simp: sum_results_Cons_Inr simp del: sum_results.simps)
  from Cons.IH c(2) obtain n2 where "sum_results (map len ms) = Inr n2" by blast
  moreover from c(1) obtain n1 where "len m = Inr n1"
    by (cases m) (auto simp: bindE_eq_Inr)
  ultimately show ?case by simp
qed

text \<open>
  C4, as the code has it. Whenever \<^verbatim>\<open>core_len\<close> of a chain returns, \<^verbatim>\<open>len\<close> returns too,
  the core count is the site count plus the number of cores that carry the output index
  (\<open>OutputSite\<close>, \<open>MergedOutput\<close>), so it is at least the site count, and the two are equal
  exactly when the chain has no such core. Merged input cores do not enter: a
  \<open>MergedInput\<close> counts two per stored core in both lengths.
\<close>

theorem core_len_vs_len:
  "LinearRegion_core_len ms = Inr c \<Longrightarrow>
   \<exists>n. LinearRegion_len ms = Inr n \<and> n \<le> c \<and> c = n + length (filter has_output ms) \<and>
       (c = n \<longleftrightarrow> \<not> list_ex has_output ms)"
proof -
  assume c: "LinearRegion_core_len ms = Inr c"
  then obtain n where n: "LinearRegion_len ms = Inr n"
    using chain_len_of_core_len by blast
  have eq: "c = n + length (filter has_output ms)"
    using chain_core_len_len [OF c n] .
  have "length (filter has_output ms) = 0 \<longleftrightarrow> \<not> list_ex has_output ms"
    by (simp add: list_ex_iff filter_empty_conv)
  with n eq show ?thesis by auto
qed

theorem core_len_vs_len_witness:
  "LinearRegion_core_len [MergedInput (full [3, 2, 2, 2, 2] (Fin 1)), InputSite (full [2, 2, 2] (Fin 1))] = Inr 7 \<and>
   (\<exists>n. LinearRegion_len [MergedInput (full [3, 2, 2, 2, 2] (Fin 1)), InputSite (full [2, 2, 2] (Fin 1))] = Inr n \<and> 7 = n)"
proof -
  have h: "LinearRegion_core_len [MergedInput (full [3, 2, 2, 2, 2] (Fin 1)), InputSite (full [2, 2, 2] (Fin 1))] = Inr 7"
    by (simp add: LinearRegion_core_len_def tsize_def full_def)
  show ?thesis using h core_len_vs_len [OF h] by auto
qed

text \<open>
  C4, as the claim states it, fails on the chain a model with one input site on each side of
  the output is built from: no merged core, three cores, two sites.
\<close>

theorem core_len_unmerged_counterexample:
  "\<not> list_ex is_merged
       [InputRegion (full [1, 2, 2, 2] (Fin 1)), OutputSite (full [3, 2, 2] (Fin 1)),
        InputRegion (full [1, 2, 2, 2] (Fin 1))] \<and>
   LinearRegion_core_len
       [InputRegion (full [1, 2, 2, 2] (Fin 1)), OutputSite (full [3, 2, 2] (Fin 1)),
        InputRegion (full [1, 2, 2, 2] (Fin 1))] = Inr 3 \<and>
   LinearRegion_len
       [InputRegion (full [1, 2, 2, 2] (Fin 1)), OutputSite (full [3, 2, 2] (Fin 1)),
        InputRegion (full [1, 2, 2, 2] (Fin 1))] = Inr 2"
  by (simp add: LinearRegion_core_len_def LinearRegion_len_def tsize_def full_def)

section \<open>The merged-input constructor\<close>

text \<open>
  C5, as the code has it. \<^verbatim>\<open>MergedInput.__init__\<close> accepts a tensor exactly when it has five
  axes \<^verbatim>\<open>slrij\<close> with equal bond sizes \<^verbatim>\<open>l\<close>, \<^verbatim>\<open>r\<close> and equal feature sizes \<^verbatim>\<open>i\<close>, \<^verbatim>\<open>j\<close>;
  every other tensor fails an assertion.
\<close>

theorem MergedInput_init_accepts:
  "MergedInput_init t =
     (if length (shape t) = 5 \<and> shape t ! 1 = shape t ! 2 \<and> shape t ! 3 = shape t ! 4
      then Inr (MergedInput t) else Inl AssertionError)"
  by (simp add: MergedInput_init_def Let_def)

theorem MergedInput_init_accepts_witness:
  "MergedInput_init (full [1, 2, 2, 3, 3] (Fin 1)) = Inr (MergedInput (full [1, 2, 2, 3, 3] (Fin 1)))"
  using MergedInput_init_accepts [of "full [1, 2, 2, 3, 3] (Fin 1)"]
  by (simp add: full_def)

text \<open>C5, as the claim states it, fails: feature axes of sizes 2 and 3 are refused.\<close>

theorem MergedInput_init_features_counterexample:
  "shape (full [1, 2, 2, 2, 3] (Fin 1)) ! 3 \<noteq> shape (full [1, 2, 2, 2, 3] (Fin 1)) ! 4 \<and>
   MergedInput_init (full [1, 2, 2, 2, 3] (Fin 1)) = Inl AssertionError"
  by (simp add: MergedInput_init_def full_def)

section \<open>Grammar of \<^verbatim>\<open>combine\<close>\<close>

lemma MergedOutput_init_Inr:
  "MergedOutput_init t lo = Inr c \<Longrightarrow> is_MergedOutput c"
  by (auto simp: MergedOutput_init_def split: if_splits)

lemma combine_rule_result:
  assumes "has_rule l r m"
  shows "case combine l r m of Inl e \<Rightarrow> True
         | Inr c \<Rightarrow> if m then is_MergedOutput c else is_InputRegion c"
proof (cases m)
  case True
  with assms have sites: "(is_OutputSite l \<and> is_InputSite r) \<or> (is_InputSite l \<and> is_OutputSite r)"
    by (simp add: has_rule_def)
  then obtain lt rt where t: "tensor_of l = Inr lt" "tensor_of r = Inr rt"
    by (cases l; cases r) auto
  show ?thesis
    using True sites t
    by (auto simp: combine_def Let_def bindE_def split: sum.splits dest: MergedOutput_init_Inr)
next
  case False
  with assms have sites: "(is_InputRegion l \<and> is_InputSite r) \<or> (is_InputSite l \<and> is_InputRegion r)"
    by (simp add: has_rule_def)
  then obtain lt rt where t: "tensor_of l = Inr lt" "tensor_of r = Inr rt"
    by (cases l; cases r) auto
  have not_out: "\<not> (is_OutputSite l \<and> is_InputSite r)" "\<not> (is_InputSite l \<and> is_OutputSite r)"
    using sites by (cases l; cases r; simp)+
  show ?thesis
    using False sites t
    by (auto simp: combine_def Let_def bindE_def split: sum.splits)
qed

text \<open>
  C3, as the code has it. \<^verbatim>\<open>combine\<close> has two rules: an output core beside a single-input
  core (either order) when merging, an input region beside a single-input core (either
  order) when unmerging. It returns \<^verbatim>\<open>None\<close> exactly for the pairs and modes outside these
  rules; inside them it returns a \<open>MergedOutput\<close> (merging) or an \<open>InputRegion\<close> (unmerging),
  or raises when the two tensors do not fit.
\<close>

theorem combine_grammar:
  "(combine l r m = Inr PyNone \<longleftrightarrow> \<not> has_rule l r m) \<and>
   (has_rule l r m \<longrightarrow>
      (case combine l r m of Inl e \<Rightarrow> True
       | Inr c \<Rightarrow> if m then is_MergedOutput c else is_InputRegion c))"
proof -
  have none: "\<not> has_rule l r m \<Longrightarrow> combine l r m = Inr PyNone"
    by (auto simp: has_rule_def combine_def split: if_splits)
  have some: "has_rule l r m \<Longrightarrow> combine l r m \<noteq> Inr PyNone"
    using combine_rule_result [of l r m] by (auto split: if_splits)
  show ?thesis using none some combine_rule_result by blast
qed

theorem combine_grammar_witness:
  "has_rule (InputSite (full [2, 3, 4] (Fin 1))) (OutputSite (full [5, 3, 2] (Fin 1))) True \<and>
   (\<exists>t. combine (InputSite (full [2, 3, 4] (Fin 1))) (OutputSite (full [5, 3, 2] (Fin 1))) True
          = Inr (MergedOutput t False) \<and> shape t = [5, 2, 2, 4]) \<and>
   has_rule (InputRegion (full [2, 3, 3, 4] (Fin 1))) (InputSite (full [3, 3, 4] (Fin 1))) False \<and>
   (\<exists>t. combine (InputRegion (full [2, 3, 3, 4] (Fin 1))) (InputSite (full [3, 3, 4] (Fin 1))) False
          = Inr (InputRegion t) \<and> shape t = [3, 3, 3, 4])"
proof -
  have h1: "has_rule (InputSite (full [2, 3, 4] (Fin 1))) (OutputSite (full [5, 3, 2] (Fin 1))) True"
    by (simp add: has_rule_def)
  have h2: "has_rule (InputRegion (full [2, 3, 3, 4] (Fin 1))) (InputSite (full [3, 3, 4] (Fin 1))) False"
    by (simp add: has_rule_def)
  have c1: "\<exists>t. combine (InputSite (full [2, 3, 4] (Fin 1))) (OutputSite (full [5, 3, 2] (Fin 1))) True
          = Inr (MergedOutput t False) \<and> shape t = [5, 2, 2, 4]"
    by (simp add: combine_def einsum_def full_def MergedOutput_init_def)
  have c2: "\<exists>t. combine (InputRegion (full [2, 3, 3, 4] (Fin 1))) (InputSite (full [3, 3, 4] (Fin 1))) False
          = Inr (InputRegion t) \<and> shape t = [3, 3, 3, 4]"
    by (simp add: combine_def cat_def unsqueeze0_def full_def)
  show ?thesis
    using h1 h2 c1 c2
      combine_grammar [of "InputSite (full [2, 3, 4] (Fin 1))" "OutputSite (full [5, 3, 2] (Fin 1))" True]
    by blast
qed

text \<open>
  C3, as the claim states it, fails on its second row: two single-input cores, or an input
  region and a single-input core, are not combined when merging.
\<close>

theorem combine_inputs_merging_counterexample:
  "combine (InputSite (full [2, 2, 3] (Fin 1))) (InputSite (full [2, 2, 3] (Fin 1))) True = Inr PyNone \<and>
   combine (InputRegion (full [2, 2, 2, 3] (Fin 1))) (InputSite (full [2, 2, 3] (Fin 1))) True = Inr PyNone \<and>
   combine (InputSite (full [2, 2, 3] (Fin 1))) (InputRegion (full [2, 2, 2, 3] (Fin 1))) True = Inr PyNone"
  by (simp add: combine_def)

section \<open>Pre-embedded input\<close>

text \<open>
  C10, as the code has it. On an input with three axes \<^verbatim>\<open>embed_input\<close> first asserts that the
  second axis has size \<^verbatim>\<open>input_dim\<close>; then a third axis of a size other than \<^verbatim>\<open>feature_dim\<close>
  raises ValueError, and an input of shape \<^verbatim>\<open>[batch_size, input_dim, feature_dim]\<close> is
  returned unchanged.
\<close>

theorem embed_input_pre_embedded:
  "length (shape x) = 3 \<Longrightarrow>
   embed_input self x =
     (if shape x ! 1 \<noteq> input_dim self then Inl AssertionError
      else if shape x ! 2 \<noteq> feature_dim self then Inl ValueError
      else Inr x)"
  by (simp add: embed_input_def Let_def)

lemma example_mps_dims:
  "\<exists>m. example_mps = Inr m \<and> input_dim m = 2 \<and> feature_dim m = 2"
  by (simp add: example_mps_def MPS_init_def MergedLinearRegion_init_def LinearRegion_init_def
      MergedLinearRegion_merge_def get_list_def set_list_def getattr_list_def
      merge_pass_def out_list_of_def first_merged_def first_item_def getitem_int_def
      getitem_slice_def merge_pairs_def MergedInput_init_def MergedOutput_init_def combine_def
      einsum_def select0_def slice0_def slice_indices_def clamp_bound_def py_index_def
      instance_ext_def full_def tsize_def LinearRegion_len_def Let_def)

theorem embed_input_pre_embedded_witness:
  "\<exists>m. example_mps = Inr m \<and> length (shape example_batch) = 3 \<and>
       embed_input m example_batch = Inr example_batch \<and>
       embed_input m (full [4, 2, 3] (Fin 1)) = Inl ValueError"
proof -
  obtain m where m: "example_mps = Inr m" "input_dim m = 2" "feature_dim m = 2"
    using example_mps_dims by blast
  have l: "length (shape example_batch) = 3" "length (shape (full [4, 2, 3] (Fin 1))) = 3"
    by (simp_all add: example_batch_def full_def)
  show ?thesis
    apply (rule exI [of _ m])
    using m l embed_input_pre_embedded [of example_batch m]
      embed_input_pre_embedded [of "full [4, 2, 3] (Fin 1)" m]
    by (simp add: example_batch_def full_def)
qed

text \<open>
  C10, as the claim states it, fails on an input with three axes whose second axis is not
  \<^verbatim>\<open>input_dim\<close>: the assertion fails before the feature axis is looked at, and the error
  is not a ValueError.
\<close>

theorem embed_input_wrong_sites_counterexample:
  "\<not> isl example_mps \<and> length (shape (full [4, 5, 3] (Fin 1))) = 3 \<and>
   shape (full [4, 5, 3] (Fin 1)) ! 2 \<noteq> feature_dim (projr example_mps) \<and>
   embed_input (projr example_mps) (full [4, 5, 3] (Fin 1)) = Inl AssertionError"
proof -
  obtain m where m: "example_mps = Inr m" "input_dim m = 2" "feature_dim m = 2"
    using example_mps_dims by blast
  have p: "projr example_mps = m" "\<not> isl example_mps"
    by (simp_all add: m(1))
  show ?thesis
    using p m(2,3) by (simp add: embed_input_def full_def Let_def)
qed

section \<open>Bookkeeping of bond dimensions\<close>

lemma update_bonds_frame:
  "update_bonds i nb ns bonds svs = Inr (bonds', svs') \<Longrightarrow>
   length bonds' = length bonds \<and> length svs' = length svs \<and>
   (\<forall>j. j < i \<or> i + length nb \<le> j \<longrightarrow> bonds' ! j = bonds ! j \<and> svs' ! j = svs ! j) \<and>
   (\<forall>k < length nb.
      (nb ! k = - 1 \<longrightarrow> bonds' ! (i + k) = bonds ! (i + k) \<and> svs' ! (i + k) = svs ! (i + k)) \<and>
      (nb ! k \<noteq> - 1 \<longrightarrow> bonds' ! (i + k) = nb ! k \<and>
         (\<exists>v. ns ! (i + k) = SvVec v \<and> assign_row (svs ! (i + k)) v = Inr (svs' ! (i + k)))))"
proof (induction nb arbitrary: i bonds svs)
  case Nil
  then show ?case by simp
next
  case (Cons b rest)
  show ?case
  proof (cases "b = - 1")
    case True
    with Cons.prems have step: "update_bonds (i + 1) rest ns bonds svs = Inr (bonds', svs')"
      by simp
    note ih = Cons.IH [OF step]
    have "\<forall>k < length (b # rest).
      ((b # rest) ! k = - 1 \<longrightarrow> bonds' ! (i + k) = bonds ! (i + k) \<and> svs' ! (i + k) = svs ! (i + k)) \<and>
      ((b # rest) ! k \<noteq> - 1 \<longrightarrow> bonds' ! (i + k) = (b # rest) ! k \<and>
         (\<exists>v. ns ! (i + k) = SvVec v \<and> assign_row (svs ! (i + k)) v = Inr (svs' ! (i + k))))"
    proof (intro allI impI)
      fix k assume k: "k < length (b # rest)"
      show "((b # rest) ! k = - 1 \<longrightarrow> bonds' ! (i + k) = bonds ! (i + k) \<and> svs' ! (i + k) = svs ! (i + k)) \<and>
      ((b # rest) ! k \<noteq> - 1 \<longrightarrow> bonds' ! (i + k) = (b # rest) ! k \<and>
         (\<exists>v. ns ! (i + k) = SvVec v \<and> assign_row (svs ! (i + k)) v = Inr (svs' ! (i + k))))"
      proof (cases k)
        case 0
        with True ih show ?thesis by simp
      next
        case (Suc k')
        with k have "k' < length rest" by simp
        with ih Suc show ?thesis by simp
      qed
    qed
    moreover have "\<forall>j. j < i \<or> i + length (b # rest) \<le> j \<longrightarrow>
        bonds' ! j = bonds ! j \<and> svs' ! j = svs ! j"
      using ih by simp
    ultimately show ?thesis using ih by blast
  next
    case False
    with Cons.prems obtain v row where
      v: "i < length ns" "ns ! i = SvVec v" "i < length bonds" "i < length svs"
        "assign_row (svs ! i) v = Inr row"
      and step: "update_bonds (i + 1) rest ns (bonds[i := b]) (svs[i := row]) = Inr (bonds', svs')"
      by (auto simp: bindE_eq_Inr split: if_splits sv_entry.splits)
    note ih = Cons.IH [OF step]
    have at_i: "bonds' ! i = b" "svs' ! i = row"
      using ih v(3,4) by simp_all
    have "\<forall>k < length (b # rest).
      ((b # rest) ! k = - 1 \<longrightarrow> bonds' ! (i + k) = bonds ! (i + k) \<and> svs' ! (i + k) = svs ! (i + k)) \<and>
      ((b # rest) ! k \<noteq> - 1 \<longrightarrow> bonds' ! (i + k) = (b # rest) ! k \<and>
         (\<exists>v. ns ! (i + k) = SvVec v \<and> assign_row (svs ! (i + k)) v = Inr (svs' ! (i + k))))"
    proof (intro allI impI)
      fix k assume k: "k < length (b # rest)"
      show "((b # rest) ! k = - 1 \<longrightarrow> bonds' ! (i + k) = bonds ! (i + k) \<and> svs' ! (i + k) = svs ! (i + k)) \<and>
      ((b # rest) ! k \<noteq> - 1 \<longrightarrow> bonds' ! (i + k) = (b # rest) ! k \<and>
         (\<exists>v. ns ! (i + k) = SvVec v \<and> assign_row (svs ! (i + k)) v = Inr (svs' ! (i + k))))"
      proof (cases k)
        case 0
        with False at_i v show ?thesis by simp
      next
        case (Suc k')
        with k have "k' < length rest" by simp
        with ih Suc show ?thesis by simp
      qed
    qed
    moreover have "\<forall>j. j < i \<or> i + length (b # rest) \<le> j \<longrightarrow>
        bonds' ! j = bonds ! j \<and> svs' ! j = svs ! j"
      using ih by auto
    ultimately show ?thesis using ih by simp
  qed
qed

section \<open>The forward call of the adaptive region\<close>

lemma set_list_fields [simp]:
  "input_counter (set_list r off ms) = input_counter r"
  "merge_threshold (set_list r off ms) = merge_threshold r"
  "offset (set_list r off ms) = offset r"
  "cutoff (set_list r off ms) = cutoff r"
  "module_list (set_list r off ms) = module_list r"
  "periodic_bc (set_list r off ms) = periodic_bc r"
  "parallel_eval (set_list r off ms) = parallel_eval r"
  by (simp_all add: set_list_def)

lemma get_list_set_list:
  "off < 2 \<Longrightarrow> off' < 2 \<Longrightarrow>
   get_list (set_list r off ms) off' = (if off' = off then Some ms else get_list r off')"
  by (auto simp: get_list_def set_list_def)

lemma merge_fields:
  assumes "MergedLinearRegion_merge r off = Inr r'"
  shows "input_counter r' = input_counter r \<and> merge_threshold r' = merge_threshold r \<and>
         offset r' = offset r \<and> cutoff r' = cutoff r \<and> module_list r' = module_list r \<and>
         periodic_bc r' = periodic_bc r \<and> parallel_eval r' = parallel_eval r"
  using assms
  by (auto simp: MergedLinearRegion_merge_def bindE_eq_Inr split: if_splits option.splits)

lemma unmerge_fields:
  assumes "MergedLinearRegion_unmerge ext r c = Inr ((bl, sl), r')"
  shows "input_counter r' = input_counter r \<and> merge_threshold r' = merge_threshold r \<and>
         offset r' = offset r \<and> cutoff r' = cutoff r \<and>
         module_list_0 r' = module_list_0 r \<and> module_list_1 r' = module_list_1 r \<and>
         periodic_bc r' = periodic_bc r \<and> parallel_eval r' = parallel_eval r"
  using assms
  by (auto simp: MergedLinearRegion_unmerge_def bindE_eq_Inr)

lemma unmerge_lists:
  assumes "MergedLinearRegion_unmerge ext r c = Inr ((bl, sl), r')"
  shows "\<exists>ms ul b s. get_list r (offset r) = Some ms \<and> unmerge_cores ext ms c = Inr (ul, b, s) \<and>
           bl = - 1 # b \<and> sl = SvUnset # s"
  using assms
  by (auto simp: MergedLinearRegion_unmerge_def getattr_list_def bindE_eq_Inr split: option.splits)

lemma cycle_fields:
  assumes "structural_cycle ext r = Inr ((bl, sl), r')"
  shows "input_counter r' = input_counter r - merge_threshold r"
    and "merge_threshold r' = merge_threshold r"
    and "offset r' = (offset r + 1) mod 2"
    and "periodic_bc r' = periodic_bc r" and "parallel_eval r' = parallel_eval r"
    and "cutoff r' = cutoff r"
    and "\<exists>ms ul b s. get_list r (offset r) = Some ms \<and>
           unmerge_cores ext ms (cutoff r) = Inr (ul, b, s) \<and> bl = - 1 # b \<and> sl = SvUnset # s"
    and "getattr_list r' (offset r') = Inr (module_list r')"
proof -
  from assms obtain r1 where u: "MergedLinearRegion_unmerge ext r (cutoff r) = Inr ((bl, sl), r1)"
    by (auto simp: structural_cycle_def bindE_eq_Inr Let_def)
  define r1' where "r1' = r1\<lparr>offset := (offset r1 + 1) mod 2\<rparr>"
  from assms u obtain r2 where m: "MergedLinearRegion_merge r1' (offset r1') = Inr r2"
    by (auto simp: structural_cycle_def bindE_eq_Inr Let_def r1'_def)
  define r2' where "r2' = r2\<lparr>input_counter := input_counter r2 - merge_threshold r2\<rparr>"
  from assms u m obtain active where
    a: "getattr_list r2' (offset r2') = Inr active" and r': "r' = r2'\<lparr>module_list := active\<rparr>"
    by (auto simp: structural_cycle_def bindE_eq_Inr Let_def r1'_def r2'_def)
  note uf = unmerge_fields [OF u] and mf = merge_fields [OF m]
  show "input_counter r' = input_counter r - merge_threshold r"
    using uf mf by (simp add: r' r2'_def r1'_def)
  show "merge_threshold r' = merge_threshold r"
    using uf mf by (simp add: r' r2'_def r1'_def)
  show "offset r' = (offset r + 1) mod 2"
    using uf mf by (simp add: r' r2'_def r1'_def)
  show "periodic_bc r' = periodic_bc r" "parallel_eval r' = parallel_eval r" "cutoff r' = cutoff r"
    using uf mf by (simp_all add: r' r2'_def r1'_def)
  show "\<exists>ms ul b s. get_list r (offset r) = Some ms \<and>
           unmerge_cores ext ms (cutoff r) = Inr (ul, b, s) \<and> bl = - 1 # b \<and> sl = SvUnset # s"
    using unmerge_lists [OF u] .
  show "getattr_list r' (offset r') = Inr (module_list r')"
    using a by (auto simp: r' getattr_list_def get_list_def split: if_splits)
qed

text \<open>The two ways a forward call can return.\<close>

lemma forward_cases:
  assumes "MergedLinearRegion_forward ext r x = Inr (res, r')"
  obtains (fired) bl sl r1 batch_size out where
      "merge_threshold r \<le> input_counter r"
      "structural_cycle ext r = Inr ((bl, sl), r1)"
      "tsize x 0 = Inr batch_size"
      "r' = r1\<lparr>input_counter := input_counter r1 + int batch_size\<rparr>"
      "LinearRegion_forward ext (module_list r1) (periodic_bc r1) (parallel_eval r1) x = Inr out"
      "res = Triple out bl sl"
  | (idle) batch_size out where
      "\<not> merge_threshold r \<le> input_counter r"
      "tsize x 0 = Inr batch_size"
      "r' = r\<lparr>input_counter := input_counter r + int batch_size\<rparr>"
      "LinearRegion_forward ext (module_list r) (periodic_bc r) (parallel_eval r) x = Inr out"
      "res = Plain out"
proof (cases "merge_threshold r \<le> input_counter r")
  case True
  with assms obtain bl sl r1 where c: "structural_cycle ext r = Inr ((bl, sl), r1)"
    by (auto simp: MergedLinearRegion_forward_def bindE_eq_Inr)
  from cycle_fields(7) [OF c] have ne: "bl \<noteq> []" by auto
  from assms True c obtain batch_size where b: "tsize x 0 = Inr batch_size"
    by (auto simp: MergedLinearRegion_forward_def bindE_eq_Inr)
  from assms True c b ne obtain out where
    "LinearRegion_forward ext (module_list r1) (periodic_bc r1) (parallel_eval r1) x = Inr out"
    "res = Triple out bl sl" "r' = r1\<lparr>input_counter := input_counter r1 + int batch_size\<rparr>"
    by (auto simp: MergedLinearRegion_forward_def bindE_eq_Inr Let_def)
  with True c b show ?thesis using fired by blast
next
  case False
  with assms obtain batch_size where b: "tsize x 0 = Inr batch_size"
    by (auto simp: MergedLinearRegion_forward_def bindE_eq_Inr)
  from assms False b obtain out where
    "LinearRegion_forward ext (module_list r) (periodic_bc r) (parallel_eval r) x = Inr out"
    "res = Plain out" "r' = r\<lparr>input_counter := input_counter r + int batch_size\<rparr>"
    by (auto simp: MergedLinearRegion_forward_def bindE_eq_Inr Let_def)
  with False b show ?thesis using idle by blast
qed

text \<open>
  What one call does to the counter and which kind of result it returns: a cycle fires
  exactly when the counter, before this call's batch is added, has reached the threshold.
\<close>

lemma forward_step:
  assumes "MergedLinearRegion_forward ext r x = Inr (res, r')"
  shows "merge_threshold r' = merge_threshold r"
    and "\<exists>batch_size. tsize x 0 = Inr batch_size \<and>
           input_counter r' =
             (if input_counter r \<ge> merge_threshold r then input_counter r - merge_threshold r
              else input_counter r) + int batch_size"
    and "is_Triple res \<longleftrightarrow> input_counter r \<ge> merge_threshold r"
proof -
  show "merge_threshold r' = merge_threshold r"
    using assms by (cases rule: forward_cases) (auto dest: cycle_fields(2))
  show "\<exists>batch_size. tsize x 0 = Inr batch_size \<and>
           input_counter r' =
             (if input_counter r \<ge> merge_threshold r then input_counter r - merge_threshold r
              else input_counter r) + int batch_size"
    using assms by (cases rule: forward_cases) (auto dest: cycle_fields(1))
  show "is_Triple res \<longleftrightarrow> input_counter r \<ge> merge_threshold r"
    using assms by (cases rule: forward_cases) auto
qed

section \<open>The two tilings of an adaptive region\<close>









section \<open>Running the example\<close>

lemmas init_eval =
  MPS_init_def MergedLinearRegion_init_def LinearRegion_init_def
  MergedLinearRegion_merge_def get_list_def set_list_def getattr_list_def
  merge_pass_def out_list_of_def first_merged_def first_item_def getitem_int_def
  getitem_slice_def merge_pairs_def MergedInput_init_def MergedOutput_init_def combine_def
  einsum_def select0_def slice0_def slice_indices_def clamp_bound_def py_index_def
  instance_ext_def full_def tsize_def LinearRegion_len_def Let_def

lemmas forward_eval =
  MPS_forward_def reorder_by_path_def embed_input_def MergedLinearRegion_forward_def
  LinearRegion_forward_def select1_def slice1_def sequential_reduce_def labelled_def
  multiply_def one_hot_def lin_bonds_def ein_str_def trace_strs_def example_batch_def

lemmas cycle_eval =
  structural_cycle_def MergedLinearRegion_unmerge_def unmerge_pass_def MergedInput_unmerge_def
  MergedOutput_unmerge_def constant_svd_flex_def rescale_def iter_tensor_def stack_def cat_def
  unsqueeze0_def scale_cores_def scale_single_def scale_tensor_def assign_row_def

lemma example_region_run:
  "\<exists>r0 rs r3 res4 r4.
     example_region = Inr r0 \<and> input_counter r0 = 0 \<and> merge_threshold r0 = 10 \<and>
     offset r0 = 0 \<and>
     forward_calls instance_ext r0 [example_batch, example_batch, example_batch] = Inr (rs, r3) \<and>
     MergedLinearRegion_forward instance_ext r3 example_batch = Inr (res4, r4)"
  by (simp add: example_region_def init_eval forward_eval cycle_eval)

lemma example_batch_size: "tsize example_batch 0 = Inr 4"
  by (simp add: example_batch_def tsize_def full_def)

section \<open>Threshold firing\<close>

text \<open>
  C1, as the code has it. With threshold 10 and the counter at 0, three calls with batches
  of 4 meet the counters 0, 4 and 8 before the call: none of them fires a cycle, and the
  counter is 12 afterwards. The next call is the first whose counter before the call has
  reached the threshold; it fires the cycle, takes 10 off and adds its own batch size.
\<close>

theorem threshold_firing:
  assumes "input_counter r0 = 0" and "merge_threshold r0 = 10"
    and "tsize x1 0 = Inr 4" and "tsize x2 0 = Inr 4" and "tsize x3 0 = Inr 4"
    and "tsize x4 0 = Inr b"
    and "forward_calls ext r0 [x1, x2, x3] = Inr (rs, r3)"
    and "MergedLinearRegion_forward ext r3 x4 = Inr (res4, r4)"
  shows "list_all is_Plain rs \<and> input_counter r3 = 12 \<and>
         is_Triple res4 \<and> input_counter r4 = 2 + int b"
proof -
  from assms(7) obtain res1 r1 res2 r2 res3 where
    c1: "MergedLinearRegion_forward ext r0 x1 = Inr (res1, r1)" and
    c2: "MergedLinearRegion_forward ext r1 x2 = Inr (res2, r2)" and
    c3: "MergedLinearRegion_forward ext r2 x3 = Inr (res3, r3)" and
    rs: "rs = [res1, res2, res3]"
    by (auto simp: bindE_eq_Inr)
  have s1: "merge_threshold r1 = 10" "input_counter r1 = 4" "\<not> is_Triple res1"
    using forward_step [OF c1] assms(1,2,3) by auto
  have s2: "merge_threshold r2 = 10" "input_counter r2 = 8" "\<not> is_Triple res2"
    using forward_step [OF c2] s1 assms(4) by auto
  have s3: "merge_threshold r3 = 10" "input_counter r3 = 12" "\<not> is_Triple res3"
    using forward_step [OF c3] s2 assms(5) by auto
  have s4: "input_counter r4 = 2 + int b" "is_Triple res4"
    using forward_step [OF assms(8)] s3 assms(6) by auto
  have "is_Plain res1" "is_Plain res2" "is_Plain res3"
    using s1(3) s2(3) s3(3) by (cases res1; cases res2; cases res3; simp)+
  with rs s3 s4 show ?thesis by simp
qed

theorem threshold_firing_witness:
  "\<exists>r0 rs r3 res4 r4.
     example_region = Inr r0 \<and>
     forward_calls instance_ext r0 [example_batch, example_batch, example_batch] = Inr (rs, r3) \<and>
     MergedLinearRegion_forward instance_ext r3 example_batch = Inr (res4, r4) \<and>
     list_all is_Plain rs \<and> input_counter r3 = 12 \<and> is_Triple res4 \<and> input_counter r4 = 6"
proof -
  obtain r0 rs r3 res4 r4 where
    h: "example_region = Inr r0" "input_counter r0 = 0" "merge_threshold r0 = 10"
       "forward_calls instance_ext r0 [example_batch, example_batch, example_batch] = Inr (rs, r3)"
       "MergedLinearRegion_forward instance_ext r3 example_batch = Inr (res4, r4)"
    using example_region_run by blast
  have "list_all is_Plain rs \<and> input_counter r3 = 12 \<and> is_Triple res4 \<and>
        input_counter r4 = 2 + int 4"
    using threshold_firing [OF h(2,3) example_batch_size example_batch_size example_batch_size
        example_batch_size h(4,5)] .
  with h show ?thesis by auto
qed

text \<open>
  C1, as the claim states it, fails: on the example region the three calls with batches of
  4 all return the output alone, and the counter is 12 after them, not 2.
\<close>

theorem threshold_three_calls_counterexample:
  "\<not> isl example_region \<and>
   merge_threshold (projr example_region) = 10 \<and> tsize example_batch 0 = Inr 4 \<and>
   \<not> isl (forward_calls instance_ext (projr example_region)
            [example_batch, example_batch, example_batch]) \<and>
   list_all is_Plain
     (fst (projr (forward_calls instance_ext (projr example_region)
                    [example_batch, example_batch, example_batch]))) \<and>
   input_counter
     (snd (projr (forward_calls instance_ext (projr example_region)
                    [example_batch, example_batch, example_batch]))) = 12"
proof -
  obtain r0 rs r3 res4 r4 where
    h: "example_region = Inr r0" "input_counter r0 = 0" "merge_threshold r0 = 10"
       "forward_calls instance_ext r0 [example_batch, example_batch, example_batch] = Inr (rs, r3)"
       "MergedLinearRegion_forward instance_ext r3 example_batch = Inr (res4, r4)"
    using example_region_run by blast
  from h(4) obtain res1 r1 res2 r2 res3 where
    c1: "MergedLinearRegion_forward instance_ext r0 example_batch = Inr (res1, r1)" and
    c2: "MergedLinearRegion_forward instance_ext r1 example_batch = Inr (res2, r2)" and
    c3: "MergedLinearRegion_forward instance_ext r2 example_batch = Inr (res3, r3)" and
    rs: "rs = [res1, res2, res3]"
    by (auto simp: bindE_eq_Inr)
  have s1: "merge_threshold r1 = 10" "input_counter r1 = 4" "\<not> is_Triple res1"
    using forward_step [OF c1] h(2,3) example_batch_size by auto
  have s2: "merge_threshold r2 = 10" "input_counter r2 = 8" "\<not> is_Triple res2"
    using forward_step [OF c2] s1 example_batch_size by auto
  have s3: "input_counter r3 = 12" "\<not> is_Triple res3"
    using forward_step [OF c3] s2 example_batch_size by auto
  have pl: "is_Plain res1" "is_Plain res2" "is_Plain res3"
    using s1(3) s2(3) s3(2) by (cases res1; cases res2; cases res3; simp)+
  have p: "projr example_region = r0" "\<not> isl example_region"
    by (simp_all add: h(1))
  show ?thesis
    apply (simp only: p(1) h(4))
    using p(2) pl rs s3(1) h(3) example_batch_size by simp
qed

section \<open>The result of an adaptive forward call\<close>







section \<open>Stored bond dimensions and singular values\<close>

text \<open>
  C9. When the region returns the triple and \<^verbatim>\<open>MPS.forward\<close> returns, the stored lists keep
  their lengths; at a junction whose returned bond entry is \<^verbatim>\<open>-1\<close> the stored bond dimension
  and singular values are the ones from before the call, and at every other junction the
  returned bond dimension and singular values are stored.
\<close>

theorem bond_update_frame:
  assumes "reorder_by_path self x = Inr x1" and "embed_input self x1 = Inr x2"
    and "region_forward ext (linear_region self) x2 = Inr (Triple output new_bonds new_svs, region')"
    and "MPS_forward ext self x = Inr (out, self')"
  shows "out = output \<and>
         length (bond_list self') = length (bond_list self) \<and>
         length (sv_list self') = length (sv_list self) \<and>
         (\<forall>i < length new_bonds.
            (new_bonds ! i = - 1 \<longrightarrow>
               bond_list self' ! i = bond_list self ! i \<and> sv_list self' ! i = sv_list self ! i) \<and>
            (new_bonds ! i \<noteq> - 1 \<longrightarrow>
               bond_list self' ! i = new_bonds ! i \<and>
               (\<exists>v. new_svs ! i = SvVec v \<and>
                    assign_row (sv_list self ! i) v = Inr (sv_list self' ! i))))"
proof -
  from assms obtain bonds svs where
    u: "update_bonds 0 new_bonds new_svs (bond_list self) (sv_list self) = Inr (bonds, svs)" and
    o: "out = output" and
    s: "self' = self\<lparr>linear_region := region', bond_list := bonds, sv_list := svs\<rparr>"
    by (auto simp: MPS_forward_def bindE_eq_Inr split: if_splits)
  from update_bonds_frame [OF u] o s show ?thesis by simp
qed

lemma example_mps_run:
  "\<exists>m0 outs m3 output nb ns region' m4.
     example_mps = Inr m0 \<and>
     MPS_calls instance_ext m0 [example_batch, example_batch, example_batch] = Inr (outs, m3) \<and>
     reorder_by_path m3 example_batch = Inr example_batch \<and>
     embed_input m3 example_batch = Inr example_batch \<and>
     region_forward instance_ext (linear_region m3) example_batch
       = Inr (Triple output nb ns, region') \<and>
     MPS_forward instance_ext m3 example_batch = Inr (output, m4) \<and>
     nb = [- 1, 2, - 1, - 1] \<and> length (bond_list m3) = 4 \<and>
     entry (sv_list m3 ! 1) [0] = Fin (- 1) \<and> entry (sv_list m4 ! 1) [0] = Fin 1"
  by (simp add: example_mps_def init_eval forward_eval cycle_eval)

theorem bond_update_frame_witness:
  "\<exists>m0 outs m3 output nb ns region' m4.
     example_mps = Inr m0 \<and>
     MPS_calls instance_ext m0 [example_batch, example_batch, example_batch] = Inr (outs, m3) \<and>
     region_forward instance_ext (linear_region m3) example_batch
       = Inr (Triple output nb ns, region') \<and>
     MPS_forward instance_ext m3 example_batch = Inr (output, m4) \<and>
     nb = [- 1, 2, - 1, - 1] \<and>
     bond_list m4 ! 0 = bond_list m3 ! 0 \<and> sv_list m4 ! 0 = sv_list m3 ! 0 \<and>
     bond_list m4 ! 2 = bond_list m3 ! 2 \<and> sv_list m4 ! 2 = sv_list m3 ! 2 \<and>
     bond_list m4 ! 3 = bond_list m3 ! 3 \<and> sv_list m4 ! 3 = sv_list m3 ! 3 \<and>
     bond_list m4 ! 1 = 2 \<and>
     entry (sv_list m3 ! 1) [0] = Fin (- 1) \<and> entry (sv_list m4 ! 1) [0] = Fin 1"
proof -
  obtain m0 outs m3 outp nb ns region' m4 where
    h: "example_mps = Inr m0"
       "MPS_calls instance_ext m0 [example_batch, example_batch, example_batch] = Inr (outs, m3)"
       "reorder_by_path m3 example_batch = Inr example_batch"
       "embed_input m3 example_batch = Inr example_batch"
       "region_forward instance_ext (linear_region m3) example_batch
          = Inr (Triple outp nb ns, region')"
       "MPS_forward instance_ext m3 example_batch = Inr (outp, m4)"
       "nb = [- 1, 2, - 1, - 1]"
       "entry (sv_list m3 ! 1) [0] = Fin (- 1)" "entry (sv_list m4 ! 1) [0] = Fin 1"
    using example_mps_run by blast
  note f = bond_update_frame [OF h(3,4,5,6)]
  have "\<forall>i<4. (nb ! i = - 1 \<longrightarrow>
               bond_list m4 ! i = bond_list m3 ! i \<and> sv_list m4 ! i = sv_list m3 ! i) \<and>
            (nb ! i \<noteq> - 1 \<longrightarrow> bond_list m4 ! i = nb ! i)"
    using f h(7) by auto
  then have "bond_list m4 ! 0 = bond_list m3 ! 0 \<and> sv_list m4 ! 0 = sv_list m3 ! 0 \<and>
     bond_list m4 ! 2 = bond_list m3 ! 2 \<and> sv_list m4 ! 2 = sv_list m3 ! 2 \<and>
     bond_list m4 ! 3 = bond_list m3 ! 3 \<and> sv_list m4 ! 3 = sv_list m3 ! 3 \<and>
     bond_list m4 ! 1 = 2"
    unfolding h(7) by (simp add: nth_Cons')
  with h show ?thesis by blast
qed

section \<open>Periodic boundary: the trace\<close>

lemma trace_strs_eq:
  "trace_strs bs =
     (map (\<lambda>c. if c = CHR ''l'' \<or> c = CHR ''r'' then CHR ''l'' else c) bs, free_labels bs)"
proof -
  have "foldl (\<lambda>(in_str, out_str) c.
              if c \<in> set lin_bonds then (in_str @ ''l'', out_str)
              else (in_str @ [c], out_str @ [c])) (a, b) bs =
        (a @ map (\<lambda>c. if c = CHR ''l'' \<or> c = CHR ''r'' then CHR ''l'' else c) bs,
         b @ free_labels bs)" for a b
    by (induction bs arbitrary: a b) (auto simp: lin_bonds_def free_labels_def)
  from this [of "[]" "[]"] show ?thesis by (simp add: trace_strs_def)
qed

lemma split_arrow_append:
  "CHR ''-'' \<notin> set a \<Longrightarrow> split_arrow (a @ ''->'' @ b) = Some (a, b)"
  by (induction a) auto

lemma split_commas_none:
  "CHR '','' \<notin> set a \<Longrightarrow> split_commas a = [a]"
  by (induction a) auto

lemma bind_sizes_error: "bind_sizes ls ns env = Inl e \<Longrightarrow> e = RuntimeError"
  by (induction ls ns env rule: bind_sizes.induct) (auto split: option.splits if_splits)

lemma bind_sizes_Inr:
  "bind_sizes ls ns env = Inr env' \<Longrightarrow> distinct (map fst env) \<Longrightarrow>
   length ls = length ns \<and> distinct (map fst env') \<and>
   set (map fst env') = set (map fst env) \<union> set ls \<and>
   (\<forall>c n. map_of env c = Some n \<longrightarrow> map_of env' c = Some n) \<and>
   (\<forall>i < length ls. map_of env' (ls ! i) = Some (ns ! i))"
proof (induction ls ns env arbitrary: env' rule: bind_sizes.induct)
  case (1 env)
  then show ?case by simp
next
  case (2 c cs n ns env)
  show ?case
  proof (cases "map_of env c")
    case None
    with "2.prems" have step: "bind_sizes cs ns (env @ [(c, n)]) = Inr env'" by simp
    from None have notin: "c \<notin> fst ` set env" by (simp add: map_of_eq_None_iff)
    with "2.prems"(2) have d: "distinct (map fst (env @ [(c, n)]))" by auto
    note ih = "2.IH"(1) [OF None step d]
    have keep: "map_of (env @ [(c, n)]) c = Some n"
      using None by (simp add: map_add_def)
    have ext: "\<forall>c' n'. map_of env c' = Some n' \<longrightarrow> map_of env' c' = Some n'"
    proof (intro allI impI)
      fix c' n' assume "map_of env c' = Some n'"
      then have "map_of (env @ [(c, n)]) c' = Some n'" by (simp add: map_add_def)
      with ih show "map_of env' c' = Some n'" by blast
    qed
    have head: "map_of env' c = Some n" using ih keep by blast
    have "\<forall>i < length (c # cs). map_of env' ((c # cs) ! i) = Some ((n # ns) ! i)"
    proof (intro allI impI)
      fix i assume "i < length (c # cs)"
      then show "map_of env' ((c # cs) ! i) = Some ((n # ns) ! i)"
        using head ih by (cases i) auto
    qed
    with ih ext show ?thesis by auto
  next
    case (Some m)
    with "2.prems" have eq: "m = n" and step: "bind_sizes cs ns env = Inr env'"
      by (auto split: if_splits)
    note ih = "2.IH"(2) [OF Some eq step "2.prems"(2)]
    from Some have cin: "c \<in> fst ` set env" by (metis map_of_eq_None_iff option.distinct(1))
    have head: "map_of env' c = Some n" using ih Some eq by blast
    have "\<forall>i < length (c # cs). map_of env' ((c # cs) ! i) = Some ((n # ns) ! i)"
    proof (intro allI impI)
      fix i assume "i < length (c # cs)"
      then show "map_of env' ((c # cs) ! i) = Some ((n # ns) ! i)"
        using head ih by (cases i) auto
    qed
    with ih cin show ?thesis by auto
  qed
qed simp_all

lemma bind_sizes_succeeds:
  "length ls = length ns \<Longrightarrow>
   (\<forall>i < length ls. \<forall>j < length ls. ls ! i = ls ! j \<longrightarrow> ns ! i = ns ! j) \<Longrightarrow>
   (\<forall>i < length ls. \<forall>m. map_of env (ls ! i) = Some m \<longrightarrow> m = ns ! i) \<Longrightarrow>
   \<exists>env'. bind_sizes ls ns env = Inr env'"
proof (induction ls arbitrary: ns env)
  case Nil
  then show ?case by simp
next
  case (Cons c cs)
  from Cons.prems(1) obtain n ns' where ns: "ns = n # ns'" by (cases ns) auto
  have len: "length cs = length ns'" using Cons.prems(1) ns by simp
  have same: "\<forall>i < length cs. \<forall>j < length cs. cs ! i = cs ! j \<longrightarrow> ns' ! i = ns' ! j"
  proof (intro allI impI)
    fix i j assume "i < length cs" "j < length cs" "cs ! i = cs ! j"
    then show "ns' ! i = ns' ! j"
      using Cons.prems(2) [rule_format, of "Suc i" "Suc j"] ns by simp
  qed
  have head_same: "ns' ! i = n" if "i < length cs" "cs ! i = c" for i
    using Cons.prems(2) [rule_format, of "Suc i" 0] that ns by simp
  have env_ok: "m = ns' ! i" if "i < length cs" "map_of env (cs ! i) = Some m" for i m
    using Cons.prems(3) [rule_format, of "Suc i" m] that ns by simp
  show ?case
  proof (cases "map_of env c")
    case None
    have "\<forall>i < length cs. \<forall>m. map_of (env @ [(c, n)]) (cs ! i) = Some m \<longrightarrow> m = ns' ! i"
    proof (intro allI impI)
      fix i m assume i: "i < length cs" and m: "map_of (env @ [(c, n)]) (cs ! i) = Some m"
      show "m = ns' ! i"
      proof (cases "map_of env (cs ! i)")
        case None
        with m have "cs ! i = c \<and> m = n" by (auto simp: map_add_def split: if_splits)
        with head_same [OF i] show ?thesis by simp
      next
        case (Some m')
        with m have "m = m'" by (simp add: map_add_def)
        with Some env_ok [OF i] show ?thesis by simp
      qed
    qed
    from Cons.IH [OF len same this] obtain env' where
      "bind_sizes cs ns' (env @ [(c, n)]) = Inr env'" by blast
    with None ns show ?thesis by simp
  next
    case (Some m)
    from Cons.prems(3) [rule_format, of 0 m] Some ns have eq: "m = n" by simp
    have "\<forall>i < length cs. \<forall>m. map_of env (cs ! i) = Some m \<longrightarrow> m = ns' ! i"
      using env_ok by blast
    from Cons.IH [OF len same this] obtain env' where "bind_sizes cs ns' env = Inr env'" by blast
    with Some eq ns show ?thesis by simp
  qed
qed

lemma axis_of_nth: "c \<in> set bs \<Longrightarrow> axis_of bs c < length bs \<and> bs ! axis_of bs c = c"
  by (induction bs) (auto simp: axis_of_def)

lemma map_of_zip_axis:
  "distinct xs \<Longrightarrow> length ys = length xs \<Longrightarrow> c \<in> set xs \<Longrightarrow>
   map_of (zip xs ys) c = Some (ys ! axis_of xs c)"
proof (induction xs arbitrary: ys)
  case Nil
  then show ?case by simp
next
  case (Cons x xs)
  then obtain y ys' where ys: "ys = y # ys'" by (cases ys) auto
  show ?case
  proof (cases "x = c")
    case True
    then show ?thesis by (simp add: ys axis_of_def)
  next
    case False
    with Cons.prems ys have "map_of (zip xs ys') c = Some (ys' ! axis_of xs c)"
      using Cons.IH [of ys'] by simp
    with False show ?thesis by (simp add: ys axis_of_def)
  qed
qed


lemma fl_mul_one: "fl_mul (Fin 1) x = x"
  by (cases x) auto

lemma filter_key_distinct:
  "distinct (map fst xs) \<Longrightarrow> (k, v) \<in> set xs \<Longrightarrow> filter (\<lambda>p. fst p = k) xs = [(k, v)]"
proof (induction xs)
  case Nil
  then show ?case by simp
next
  case (Cons p ps)
  show ?case
  proof (cases "p = (k, v)")
    case True
    have "k \<notin> fst ` set ps" using Cons.prems(1) True by simp
    then have "\<forall>q \<in> set ps. fst q \<noteq> k" by force
    then have "filter (\<lambda>p. fst p = k) ps = []" by (simp add: filter_empty_conv)
    with True show ?thesis by simp
  next
    case False
    with Cons.prems have in_ps: "(k, v) \<in> set ps" by simp
    then have "k \<in> fst ` set ps" by force
    moreover have "fst p \<notin> fst ` set ps" using Cons.prems(1) by simp
    ultimately have "fst p \<noteq> k" by blast
    with Cons.IH in_ps Cons.prems(1) show ?thesis by simp
  qed
qed

lemma einsum_single:
  assumes "CHR ''-'' \<notin> set ins" and "CHR '','' \<notin> set ins"
  shows "einsum (ins @ ''->'' @ out) [t] =
     bindE (bind_sizes ins (shape t) []) (\<lambda>sizes.
       if distinct out \<and> list_all (\<lambda>c. map_of sizes c \<noteq> None) out
       then Inr (Tensor (map (\<lambda>c. the (map_of sizes c)) out) (einsum_entry [ins] out sizes [t]))
       else Inl RuntimeError)"
proof -
  have ba: "bind_all [ins] [t] [] = bind_sizes ins (shape t) []"
    by (cases "bind_sizes ins (shape t) []") simp_all
  have sa: "split_arrow (ins @ ''->'' @ out) = Some (ins, out)"
    using assms(1) by (rule split_arrow_append)
  have sc: "split_commas ins = [ins]"
    using assms(2) by (rule split_commas_none)
  show ?thesis
    unfolding einsum_def sa sc option.case prod.case ba ..
qed


lemma einsum_trace:
  assumes d: "distinct bs" and len: "length bs = length (shape t)"
    and l: "CHR ''l'' \<in> set bs" and r: "CHR ''r'' \<in> set bs"
    and dash: "CHR ''-'' \<notin> set bs" and comma: "CHR '','' \<notin> set bs"
  shows "shape t ! axis_of bs (CHR ''l'') \<noteq> shape t ! axis_of bs (CHR ''r'') \<Longrightarrow>
         einsum (ein_str bs) [t] = Inl RuntimeError"
    and "shape t ! axis_of bs (CHR ''l'') = shape t ! axis_of bs (CHR ''r'') \<Longrightarrow>
         \<exists>y. einsum (ein_str bs) [t] = Inr y \<and>
             shape y = map (\<lambda>c. shape t ! axis_of bs c) (free_labels bs) \<and>
             (\<forall>idx. length idx = length (free_labels bs) \<longrightarrow>
                    entry y idx = trace_entry t bs idx)"
proof -
  define g where "g = (\<lambda>c. if c = CHR ''l'' \<or> c = CHR ''r'' then CHR ''l'' else c)"
  define ins where "ins = map g bs"
  define out where "out = free_labels bs"
  define ns where "ns = shape t"
  define il where "il = axis_of bs (CHR ''l'')"
  define ir where "ir = axis_of bs (CHR ''r'')"
  have es: "ein_str bs = ins @ ''->'' @ out"
    by (simp add: ein_str_def trace_strs_eq ins_def g_def out_def)
  have nd: "CHR ''-'' \<notin> set ins" "CHR '','' \<notin> set ins"
    using dash comma by (auto simp: ins_def g_def)
  note e = einsum_single [OF nd, of out t]
  have il: "il < length bs" "bs ! il = CHR ''l''"
    using axis_of_nth [OF l] by (simp_all add: il_def)
  have ir: "ir < length bs" "bs ! ir = CHR ''r''"
    using axis_of_nth [OF r] by (simp_all add: ir_def)
  have lins: "length ins = length bs" by (simp add: ins_def)
  have ins_nth: "ins ! i = g (bs ! i)" if "i < length bs" for i
    using that by (simp add: ins_def)
  have ins_il: "ins ! il = CHR ''l''" "ins ! ir = CHR ''l''"
    using il ir by (simp_all add: ins_nth g_def)
  have bond_pos: "i = il \<or> i = ir" if "i < length bs" "bs ! i = CHR ''l'' \<or> bs ! i = CHR ''r''" for i
  proof -
    from that(2) have "bs ! i = bs ! il \<or> bs ! i = bs ! ir" using il(2) ir(2) by simp
    then show ?thesis
      using nth_eq_iff_index_eq [OF d that(1) il(1)] nth_eq_iff_index_eq [OF d that(1) ir(1)]
      by blast
  qed
  {
    assume ne: "shape t ! axis_of bs (CHR ''l'') \<noteq> shape t ! axis_of bs (CHR ''r'')"
    have "bind_sizes ins ns [] = Inl RuntimeError"
    proof (cases "bind_sizes ins ns []")
      case (Inl err)
      with bind_sizes_error show ?thesis by blast
    next
      case (Inr env')
      from bind_sizes_Inr [OF Inr] have "\<forall>i < length ins. map_of env' (ins ! i) = Some (ns ! i)"
        by simp
      with il(1) ir(1) ins_il lins have "Some (ns ! il) = Some (ns ! ir)" by metis
      with ne show ?thesis by (simp add: ns_def il_def ir_def)
    qed
    then show "einsum (ein_str bs) [t] = Inl RuntimeError"
      unfolding es e by (simp add: ns_def)
  }
  {
    assume eq: "shape t ! axis_of bs (CHR ''l'') = shape t ! axis_of bs (CHR ''r'')"
    then have eq': "ns ! il = ns ! ir" by (simp add: ns_def il_def ir_def)
    have cons: "\<forall>i < length ins. \<forall>j < length ins. ins ! i = ins ! j \<longrightarrow> ns ! i = ns ! j"
    proof (intro allI impI)
      fix i j assume i: "i < length ins" and j: "j < length ins" and same: "ins ! i = ins ! j"
      from i j lins have ib: "i < length bs" and jb: "j < length bs" by simp_all
      from same ib jb have gg: "g (bs ! i) = g (bs ! j)" by (simp add: ins_nth)
      show "ns ! i = ns ! j"
      proof (cases "bs ! i = CHR ''l'' \<or> bs ! i = CHR ''r''")
        case True
        with gg have "bs ! j = CHR ''l'' \<or> bs ! j = CHR ''r''"
          by (auto simp: g_def split: if_splits)
        with True bond_pos ib jb have "(i = il \<or> i = ir) \<and> (j = il \<or> j = ir)" by blast
        with eq' show ?thesis by auto
      next
        case False
        with gg have "bs ! i = bs ! j" by (auto simp: g_def split: if_splits)
        with d ib jb have "i = j" by (simp add: nth_eq_iff_index_eq)
        then show ?thesis by simp
      qed
    qed
    have "length ins = length ns" using len lins by (simp add: ns_def)
    from bind_sizes_succeeds [OF this cons, of "[]"] obtain sizes where
      b: "bind_sizes ins ns [] = Inr sizes" by auto
    from bind_sizes_Inr [OF b] have
      dk: "distinct (map fst sizes)" and
      keys: "set (map fst sizes) = set ins" and
      look: "\<forall>i < length ins. map_of sizes (ins ! i) = Some (ns ! i)"
      by simp_all
    have out_sub: "c \<in> set bs \<and> c \<noteq> CHR ''l'' \<and> c \<noteq> CHR ''r''" if "c \<in> set out" for c
      using that by (auto simp: out_def free_labels_def)
    have look_out: "map_of sizes c = Some (ns ! axis_of bs c)" if "c \<in> set out" for c
    proof -
      from out_sub [OF that] have c: "c \<in> set bs" "g c = c" by (simp_all add: g_def)
      from axis_of_nth [OF c(1)] have "axis_of bs c < length bs" "bs ! axis_of bs c = c" by simp_all
      with look lins ins_nth c(2) show ?thesis by metis
    qed
    have dout: "distinct out" using d by (simp add: out_def free_labels_def)
    have all_out: "list_all (\<lambda>c. map_of sizes c \<noteq> None) out"
      using look_out by (simp add: list_all_iff)
    define y where "y = Tensor (map (\<lambda>c. the (map_of sizes c)) out) (einsum_entry [ins] out sizes [t])"
    have res: "einsum (ein_str bs) [t] = Inr y"
      unfolding es e using b [unfolded ns_def] dout all_out by (simp add: y_def)
    have sh: "shape y = map (\<lambda>c. shape t ! axis_of bs c) (free_labels bs)"
      using look_out by (simp add: y_def out_def [symmetric] ns_def [symmetric])
    have l_in: "(CHR ''l'', ns ! il) \<in> set sizes"
      using look il(1) lins ins_il(1) by (metis map_of_SomeD)
    have "filter (\<lambda>cn. fst cn \<notin> set out) sizes = filter (\<lambda>cn. fst cn = CHR ''l'') sizes"
    proof (rule filter_cong [OF refl])
      fix cn assume "cn \<in> set sizes"
      then have "fst cn \<in> set ins" using keys by force
      then obtain c where c: "c \<in> set bs" "fst cn = g c" by (auto simp: ins_def)
      have l_out: "CHR ''l'' \<notin> set out" by (simp add: out_def free_labels_def)
      show "(fst cn \<notin> set out) = (fst cn = CHR ''l'')"
      proof (cases "c = CHR ''l'' \<or> c = CHR ''r''")
        case True
        with c(2) have "fst cn = CHR ''l''" by (auto simp: g_def)
        with l_out show ?thesis by simp
      next
        case False
        with c have "fst cn = c" "c \<in> set out" by (simp_all add: g_def out_def free_labels_def)
        with False show ?thesis by simp
      qed
    qed
    also have "\<dots> = [(CHR ''l'', ns ! il)]"
      using filter_key_distinct [OF dk l_in] .
    finally have summed: "filter (\<lambda>cn. fst cn \<notin> set out) sizes = [(CHR ''l'', ns ! il)]" .
    have ent: "entry y idx = trace_entry t bs idx" if li: "length idx = length (free_labels bs)" for idx
    proof -
      define ix0 where "ix0 = (\<lambda>c. case map_of (zip out idx) c of None \<Rightarrow> 0 | Some k \<Rightarrow> k)"
      have diag: "map (ix0(CHR ''l'' := k)) ins = diagonal_index bs idx k" for k
        unfolding ins_def diagonal_index_def map_map
      proof (rule map_cong [OF refl])
        fix c assume c: "c \<in> set bs"
        show "((ix0(CHR ''l'' := k)) \<circ> g) c =
              (if c = CHR ''l'' \<or> c = CHR ''r'' then k else idx ! axis_of (free_labels bs) c)"
        proof (cases "c = CHR ''l'' \<or> c = CHR ''r''")
          case True
          then show ?thesis by (auto simp: g_def)
        next
          case False
          with c have "c \<in> set out" by (simp add: out_def free_labels_def)
          from map_of_zip_axis [OF dout _ this, of idx] li
          have "map_of (zip out idx) c = Some (idx ! axis_of out c)" by (simp add: out_def)
          with False show ?thesis by (simp add: g_def ix0_def out_def)
        qed
      qed
      have "entry y idx =
            fl_sum (map (\<lambda>k. fl_prod [entry t (map (ix0(CHR ''l'' := k)) ins)]) [0..<ns ! il])"
        by (simp add: y_def einsum_entry_def summed ix0_def)
      also have "\<dots> = fl_sum (map (\<lambda>k. entry t (diagonal_index bs idx k)) [0..<ns ! il])"
        by (simp add: fl_prod_def fl_mul_one diag)
      finally show ?thesis by (simp add: trace_entry_def ns_def il_def)
    qed
    from res sh ent
    show "\<exists>y. einsum (ein_str bs) [t] = Inr y \<and>
             shape y = map (\<lambda>c. shape t ! axis_of bs c) (free_labels bs) \<and>
             (\<forall>idx. length idx = length (free_labels bs) \<longrightarrow>
                    entry y idx = trace_entry t bs idx)"
      by blast
  }
qed


lemma forward_not_EdgeVec: "forward m x = Inr c \<Longrightarrow> \<not> is_EdgeVec c"
  by (cases m) (auto simp: bindE_eq_Inr split: if_splits)

lemma contract_modules_outputs:
  "contract_modules ms ind x = Inr cl \<Longrightarrow> length cl = length ms \<and> \<not> list_ex is_EdgeVec cl"
proof (induction ms arbitrary: ind cl)
  case Nil
  then show ?case by simp
next
  case (Cons m ms)
  from Cons.prems obtain mod_len mod_input c cs where
    f: "forward m mod_input = Inr c" and
    r: "contract_modules ms (ind + mod_len) x = Inr cs" and
    cl: "cl = c # cs"
    by (auto simp: bindE_eq_Inr)
  from Cons.IH [OF r] forward_not_EdgeVec [OF f] cl show ?case by simp
qed

text \<open>
  C8. On a periodic chain the list handed to the reducer is the list of the modules'
  outputs, one per module and none of them a boundary vector. When the reduced tensor has
  one label per axis, among them the two bond labels, the call returns its trace over the
  two bond axes, and fails with torch's RuntimeError for mismatched sizes when the two bond
  axes differ in size.
\<close>

theorem periodic_forward_trace:
  assumes "length (shape x) = 3" and "LinearRegion_len ms = Inr (shape x ! 1)"
    and "contract_modules ms 0 x = Inr cl"
    and "reduce ext cl True = Inr (t, bs)"
    and "distinct bs" and "length bs = length (shape t)"
    and "CHR ''l'' \<in> set bs" and "CHR ''r'' \<in> set bs"
    and "CHR ''-'' \<notin> set bs" and "CHR '','' \<notin> set bs"
  shows "length cl = length ms \<and> \<not> list_ex is_EdgeVec cl \<and>
         (shape t ! axis_of bs (CHR ''l'') \<noteq> shape t ! axis_of bs (CHR ''r'') \<longrightarrow>
            LinearRegion_forward ext ms True par x = Inl RuntimeError) \<and>
         (shape t ! axis_of bs (CHR ''l'') = shape t ! axis_of bs (CHR ''r'') \<longrightarrow>
            (\<exists>y. LinearRegion_forward ext ms True par x = Inr y \<and>
                 shape y = map (\<lambda>c. shape t ! axis_of bs c) (free_labels bs) \<and>
                 (\<forall>idx. length idx = length (free_labels bs) \<longrightarrow>
                        entry y idx = trace_entry t bs idx)))"
proof -
  have fw: "LinearRegion_forward ext ms True par x = einsum (ein_str bs) [t]"
    using assms(1,2,3,4,7,8) by (simp add: LinearRegion_forward_def lin_bonds_def)
  from contract_modules_outputs [OF assms(3)] einsum_trace [OF assms(5,6,7,8,9,10)] fw
  show ?thesis by simp
qed

lemma upt_2: "[0..<2] = [0, Suc 0]"
  by (simp add: eval_nat_numeral)

lemma periodic_chain_run:
  "\<exists>cl t. length (shape periodic_batch) = 3 \<and>
          LinearRegion_len periodic_chain = Inr (shape periodic_batch ! 1) \<and>
          contract_modules periodic_chain 0 periodic_batch = Inr cl \<and>
          reduce instance_ext cl True = Inr (t, ''bolr'') \<and> shape t = [4, 3, 2, 2] \<and>
          trace_entry t ''bolr'' [0, 0] = Fin 512"
  by (simp add: periodic_chain_def periodic_batch_def forward_eval init_eval trace_entry_def
      diagonal_index_def axis_of_def free_labels_def einsum_entry_def fl_sum_def fl_prod_def upt_2)

lemma uneven_chain_run:
  "\<exists>cl t. length (shape uneven_batch) = 3 \<and>
          LinearRegion_len uneven_chain = Inr (shape uneven_batch ! 1) \<and>
          contract_modules uneven_chain 0 uneven_batch = Inr cl \<and>
          reduce instance_ext cl True = Inr (t, ''bolr'') \<and> shape t = [4, 3, 2, 3]"
  by (simp add: uneven_chain_def uneven_batch_def forward_eval init_eval)

theorem periodic_forward_trace_witness:
  "(\<exists>y. LinearRegion_forward instance_ext periodic_chain True False periodic_batch = Inr y \<and>
        shape y = [4, 3] \<and> entry y [0, 0] = Fin 512) \<and>
   LinearRegion_forward instance_ext uneven_chain True False uneven_batch = Inl RuntimeError"
proof -
  obtain cl t where
    h: "length (shape periodic_batch) = 3"
       "LinearRegion_len periodic_chain = Inr (shape periodic_batch ! 1)"
       "contract_modules periodic_chain 0 periodic_batch = Inr cl"
       "reduce instance_ext cl True = Inr (t, ''bolr'')" and
    t: "shape t = [4, 3, 2, 2]" "trace_entry t ''bolr'' [0, 0] = Fin 512"
    using periodic_chain_run by blast
  have labels: "distinct ''bolr''" "length ''bolr'' = length (shape t)"
    "CHR ''l'' \<in> set ''bolr''" "CHR ''r'' \<in> set ''bolr''"
    "CHR ''-'' \<notin> set ''bolr''" "CHR '','' \<notin> set ''bolr''"
    by (simp_all add: t(1))
  have eq: "shape t ! axis_of ''bolr'' (CHR ''l'') = shape t ! axis_of ''bolr'' (CHR ''r'')"
    by (simp add: t(1) axis_of_def)
  from periodic_forward_trace [OF h labels, of False] eq obtain y where
    y: "LinearRegion_forward instance_ext periodic_chain True False periodic_batch = Inr y"
       "shape y = map (\<lambda>c. shape t ! axis_of ''bolr'' c) (free_labels ''bolr'')"
       "\<forall>idx. length idx = length (free_labels ''bolr'') \<longrightarrow>
              entry y idx = trace_entry t ''bolr'' idx"
    by blast
  have "shape y = [4, 3]"
    using y(2) by (simp add: t(1) axis_of_def free_labels_def)
  moreover have "entry y [0, 0] = Fin 512"
    using y(3) t(2) by (simp add: free_labels_def)
  moreover have "LinearRegion_forward instance_ext uneven_chain True False uneven_batch
                 = Inl RuntimeError"
  proof -
    obtain cl' t' where
      h': "length (shape uneven_batch) = 3"
          "LinearRegion_len uneven_chain = Inr (shape uneven_batch ! 1)"
          "contract_modules uneven_chain 0 uneven_batch = Inr cl'"
          "reduce instance_ext cl' True = Inr (t', ''bolr'')" and
      t': "shape t' = [4, 3, 2, 3]"
      using uneven_chain_run by blast
    have labels': "distinct ''bolr''" "length ''bolr'' = length (shape t')"
      "CHR ''l'' \<in> set ''bolr''" "CHR ''r'' \<in> set ''bolr''"
      "CHR ''-'' \<notin> set ''bolr''" "CHR '','' \<notin> set ''bolr''"
      by (simp_all add: t')
    have ne: "shape t' ! axis_of ''bolr'' (CHR ''l'') \<noteq> shape t' ! axis_of ''bolr'' (CHR ''r'')"
      by (simp add: t' axis_of_def)
    from periodic_forward_trace [OF h' labels', of False] ne show ?thesis by blast
  qed
  ultimately show ?thesis using y(1) by blast
qed

section \<open>Rescaling\<close>

lemma mapE_Inr_iff:
  "mapE f xs = Inr ys \<longleftrightarrow> length ys = length xs \<and> (\<forall>i < length xs. f (xs ! i) = Inr (ys ! i))"
proof (induction xs arbitrary: ys)
  case Nil
  then show ?case by auto
next
  case (Cons x xs)
  show ?case
  proof
    assume "mapE f (x # xs) = Inr ys"
    then obtain y ys' where y: "f x = Inr y" "mapE f xs = Inr ys'" "ys = y # ys'"
      by (auto simp: bindE_eq_Inr)
    with Cons.IH [of ys'] show "length ys = length (x # xs) \<and> (\<forall>i < length (x # xs). f ((x # xs) ! i) = Inr (ys ! i))"
      by (auto simp: nth_Cons')
  next
    assume a: "length ys = length (x # xs) \<and> (\<forall>i < length (x # xs). f ((x # xs) ! i) = Inr (ys ! i))"
    then obtain y ys' where ys: "ys = y # ys'" by (cases ys) auto
    from a ys have "f x = Inr y" by auto
    moreover from a ys have "length ys' = length xs \<and> (\<forall>i < length xs. f (xs ! i) = Inr (ys' ! i))"
      by (auto simp: nth_Cons')
    with Cons.IH [of ys'] have "mapE f xs = Inr ys'" by simp
    ultimately show "mapE f (x # xs) = Inr ys" using ys by simp
  qed
qed

lemma mapE_total:
  "(\<forall>x \<in> set xs. \<exists>y. f x = Inr y) \<Longrightarrow> \<exists>ys. mapE f xs = Inr ys"
  by (induction xs) auto

lemma rescale_norm_total:
  assumes "get_norm m = Inr norms" and "length scales = length norms"
  shows "\<exists>m'. rescale_norm m scales = Inr m'"
proof (cases m)
  case (InputRegion t)
  with assms show ?thesis
    by (auto simp: bindE_eq_Inr iter_tensor_def scale_cores_def split: list.splits)
next
  case (MergedInput t)
  with assms show ?thesis
    by (auto simp: bindE_eq_Inr iter_tensor_def scale_cores_def split: list.splits)
next
  case (InputSite t)
  with assms show ?thesis by (auto simp: scale_single_def)
next
  case (OutputSite t)
  with assms show ?thesis by (auto simp: scale_single_def)
next
  case (MergedOutput t lo)
  with assms show ?thesis by (auto simp: scale_single_def)
next
  case PyNone
  with assms show ?thesis by simp
qed

lemma rescale_total:
  assumes "\<forall>m \<in> set ms. \<exists>norms. get_norm m = Inr norms"
    and "\<exists>m \<in> set ms. get_norm m \<noteq> Inr []"
  shows "\<exists>ms'. rescale ms = Inr ms' \<and> length ms' = length ms"
proof -
  define logs where "logs = (\<lambda>core. bindE (get_norm core) (\<lambda>norms. Inr (map fl_log norms)))"
  have "\<forall>m \<in> set ms. \<exists>y. logs m = Inr y"
    using assms(1) by (auto simp: logs_def)
  from mapE_total [OF this] obtain log_norms where ln: "mapE logs ms = Inr log_norms" by blast
  then have lens: "length log_norms = length ms"
    and each: "\<forall>i < length ms. logs (ms ! i) = Inr (log_norms ! i)"
    by (simp_all add: mapE_Inr_iff)
  have each_len: "\<exists>norms. get_norm (ms ! i) = Inr norms \<and> length (log_norms ! i) = length norms"
    if "i < length ms" for i
  proof -
    from each that obtain norms where
      "get_norm (ms ! i) = Inr norms" "map fl_log norms = log_norms ! i"
      by (auto simp: logs_def bindE_eq_Inr)
    then have "get_norm (ms ! i) = Inr norms \<and> length (log_norms ! i) = length norms"
      by (metis length_map)
    then show ?thesis by blast
  qed
  from assms(2) obtain j where j: "j < length ms" "get_norm (ms ! j) \<noteq> Inr []"
    by (auto simp: in_set_conv_nth)
  from each_len [OF j(1)] j(2) have "length (log_norms ! j) \<noteq> 0" by auto
  moreover have "log_norms ! j \<in> set log_norms" using j(1) lens by simp
  ultimately have count: "sum_list (map length log_norms) \<noteq> 0"
    by (auto simp: sum_list_eq_0_iff)
  define log_scale where "log_scale = fl_div_count (fl_sum (map fl_sum log_norms)) (sum_list (map length log_norms))"
  define scales where "scales = map (map (\<lambda>n. fl_exp (fl_sub log_scale n))) log_norms"
  have "\<forall>p \<in> set (zip ms scales). \<exists>y. (\<lambda>(core, these_scales). rescale_norm core these_scales) p = Inr y"
  proof
    fix p assume "p \<in> set (zip ms scales)"
    then obtain i where i: "i < length ms" "p = (ms ! i, scales ! i)"
      by (auto simp: in_set_conv_nth scales_def)
    from each_len [OF i(1)] obtain norms where
      n: "get_norm (ms ! i) = Inr norms" "length (log_norms ! i) = length norms" by blast
    have "length (scales ! i) = length norms"
      using i(1) lens n(2) by (simp add: scales_def)
    from rescale_norm_total [OF n(1) this] i(2)
    show "\<exists>y. (\<lambda>(core, these_scales). rescale_norm core these_scales) p = Inr y" by simp
  qed
  from mapE_total [OF this] obtain ms' where
    r: "mapE (\<lambda>(core, these_scales). rescale_norm core these_scales) (zip ms scales) = Inr ms'"
    by blast
  then have "length ms' = length ms"
    using lens by (simp add: mapE_Inr_iff scales_def)
  moreover have "rescale ms = Inr ms'"
    using ln count r by (simp add: rescale_def logs_def Let_def log_scale_def scales_def)
  ultimately show ?thesis by blast
qed

text \<open>
  A norm of zero has the logarithm \<^verbatim>\<open>-inf\<close>. A sum that contains \<^verbatim>\<open>-inf\<close> is \<^verbatim>\<open>-inf\<close> or NaN,
  so is the mean, and the mean minus \<^verbatim>\<open>-inf\<close> is NaN: the scale of a core whose norm is zero
  is NaN, whatever the other cores are.
\<close>

lemma fl_add_low:
  "a = NInf \<or> a = NaN \<or> b = NInf \<or> b = NaN \<Longrightarrow> fl_add a b = NInf \<or> fl_add a b = NaN"
  by (cases a; cases b) auto

lemma foldl_fl_add_low:
  "acc = NInf \<or> acc = NaN \<or> (\<exists>x \<in> set xs. x = NInf \<or> x = NaN) \<Longrightarrow>
   foldl fl_add acc xs = NInf \<or> foldl fl_add acc xs = NaN"
proof (induction xs arbitrary: acc)
  case Nil
  then show ?case by simp
next
  case (Cons x xs)
  show ?case
  proof (cases "acc = NInf \<or> acc = NaN \<or> x = NInf \<or> x = NaN")
    case True
    from fl_add_low [OF this] have "fl_add acc x = NInf \<or> fl_add acc x = NaN" .
    then have "foldl fl_add (fl_add acc x) xs = NInf \<or> foldl fl_add (fl_add acc x) xs = NaN"
      by (intro Cons.IH) blast
    then show ?thesis by simp
  next
    case False
    with Cons.prems have "\<exists>x \<in> set xs. x = NInf \<or> x = NaN" by auto
    then have "foldl fl_add (fl_add acc x) xs = NInf \<or> foldl fl_add (fl_add acc x) xs = NaN"
      by (intro Cons.IH) blast
    then show ?thesis by simp
  qed
qed

lemma fl_sum_low:
  "\<exists>x \<in> set xs. x = NInf \<or> x = NaN \<Longrightarrow> fl_sum xs = NInf \<or> fl_sum xs = NaN"
  using foldl_fl_add_low [of "Fin 0" xs] by (simp add: fl_sum_def)

lemma scale_low:
  assumes "l = NInf \<or> l = NaN"
  shows "fl_exp (fl_sub (fl_div_count l n) NInf) = NaN"
  using assms by (auto simp: fl_sub_def)

lemma fl_mul_NaN: "fl_mul x NaN = NaN"
  by (cases x) simp_all

lemma rescale_norm_NaN:
  assumes "rescale_norm m scales = Inr m'" and "tensor_of m' = Inr t'"
    and "norm_position m idx < length scales" and "scales ! norm_position m idx = NaN"
  shows "entry t' idx = NaN"
proof -
  have region: "entry t' idx = NaN"
    if "scale_cores t scales = Inr t'" "scales ! hd idx = NaN" for t
    using that by (auto simp: scale_cores_def fl_mul_NaN split: list.splits if_splits)
  have single: "entry t' idx = NaN"
    if "scale_single t scales = Inr t'" "scales ! 0 = NaN" for t
  proof -
    from that(1) have "length scales = 1" "t' = scale_tensor t (hd scales)"
      by (auto simp: scale_single_def split: if_splits)
    moreover from this(1) have "hd scales = scales ! 0" by (cases scales) auto
    ultimately show ?thesis using that(2) by (simp add: scale_tensor_def fl_mul_NaN)
  qed
  from assms region single show ?thesis
    by (cases m) (auto simp: bindE_eq_Inr norm_position_def)
qed

lemma rescale_norm_form:
  assumes "rescale_norm m scales = Inr m'"
  shows "\<exists>t t'. tensor_of m = Inr t \<and> tensor_of m' = Inr t' \<and> shape t' = shape t \<and>
                m' = set_tensor m t'"
proof -
  have region: "shape t' = shape t" if "scale_cores t scales = Inr t'" for t t'
    using that by (auto simp: scale_cores_def split: list.splits if_splits)
  have single: "shape t' = shape t" if "scale_single t scales = Inr t'" for t t'
    using that by (auto simp: scale_single_def scale_tensor_def split: if_splits)
  from assms region single show ?thesis
    by (cases m) (auto simp: bindE_eq_Inr)
qed


lemma rescale_steps:
  assumes "rescale ms = Inr ms'"
  shows "\<exists>log_scale. length ms' = length ms \<and>
           (\<forall>i < length ms. \<exists>norms. get_norm (ms ! i) = Inr norms \<and>
              rescale_norm (ms ! i) (map (\<lambda>n. fl_exp (fl_sub log_scale (fl_log n))) norms)
                = Inr (ms' ! i)) \<and>
           ((\<exists>i < length ms. \<exists>norms. get_norm (ms ! i) = Inr norms \<and> Fin 0 \<in> set norms) \<longrightarrow>
              (\<exists>l n. (l = NInf \<or> l = NaN) \<and> log_scale = fl_div_count l n))"
proof -
  define logs where "logs = (\<lambda>core. bindE (get_norm core) (\<lambda>norms. Inr (map fl_log norms)))"
  from assms obtain log_norms where ln: "mapE logs ms = Inr log_norms"
    by (auto simp: rescale_def logs_def bindE_eq_Inr)
  define total where "total = fl_sum (map fl_sum log_norms)"
  define count where "count = sum_list (map length log_norms)"
  define log_scale where "log_scale = fl_div_count total count"
  define scales where "scales = map (map (\<lambda>n. fl_exp (fl_sub log_scale n))) log_norms"
  from assms ln have
    r: "mapE (\<lambda>(core, these_scales). rescale_norm core these_scales) (zip ms scales) = Inr ms'"
    by (auto simp: rescale_def logs_def [symmetric] Let_def log_scale_def scales_def total_def
        count_def split: if_splits)
  from ln have lens: "length log_norms = length ms"
    and each: "\<forall>i < length ms. logs (ms ! i) = Inr (log_norms ! i)"
    by (simp_all add: mapE_Inr_iff)
  from r have lr: "length ms' = length ms"
    and er: "\<forall>i < length ms. rescale_norm (ms ! i) (scales ! i) = Inr (ms' ! i)"
    using lens by (auto simp: mapE_Inr_iff scales_def)
  have norms_of: "\<exists>norms. get_norm (ms ! i) = Inr norms \<and> log_norms ! i = map fl_log norms"
    if "i < length ms" for i
    using each that by (auto simp: logs_def bindE_eq_Inr)
  have step: "\<exists>norms. get_norm (ms ! i) = Inr norms \<and>
                rescale_norm (ms ! i) (map (\<lambda>n. fl_exp (fl_sub log_scale (fl_log n))) norms)
                  = Inr (ms' ! i)"
    if i: "i < length ms" for i
  proof -
    from norms_of [OF i] obtain norms where
      n: "get_norm (ms ! i) = Inr norms" "log_norms ! i = map fl_log norms" by blast
    from i lens n(2) have "scales ! i = map (\<lambda>n. fl_exp (fl_sub log_scale (fl_log n))) norms"
      by (simp add: scales_def comp_def)
    with er i n(1) show ?thesis by auto
  qed
  have low: "\<exists>l n. (l = NInf \<or> l = NaN) \<and> log_scale = fl_div_count l n"
    if z: "\<exists>i < length ms. \<exists>norms. get_norm (ms ! i) = Inr norms \<and> Fin 0 \<in> set norms"
  proof -
    from z obtain i norms where
      i: "i < length ms" "get_norm (ms ! i) = Inr norms" "Fin 0 \<in> set norms" by blast
    from norms_of [OF i(1)] i(2) have li: "log_norms ! i = map fl_log norms" by simp
    from i(3) have "fl_log (Fin 0) \<in> fl_log ` set norms" by (rule imageI)
    then have "NInf \<in> set (log_norms ! i)" using li by simp
    then have "fl_sum (log_norms ! i) = NInf \<or> fl_sum (log_norms ! i) = NaN"
      by (intro fl_sum_low) blast
    moreover have "fl_sum (log_norms ! i) \<in> set (map fl_sum log_norms)"
      using i(1) lens by simp
    ultimately have "total = NInf \<or> total = NaN"
      unfolding total_def by (intro fl_sum_low) blast
    then show ?thesis using log_scale_def by blast
  qed
  from lr step low show ?thesis by blast
qed

text \<open>
  An \<open>InputRegion\<close> of single-entry cores, rescaled on its own: the scale of a core is the
  exponential of the mean logarithm of the entries less the logarithm of its own entry.
\<close>

lemma torch_norm_single: "torch_norm (Tensor [Suc 0, Suc 0, Suc 0] (\<lambda>idx. Fin a)) = Fin \<bar>a\<bar>"
  by (simp add: torch_norm_def fl_sum_def)

lemma region_norms:
  "get_norm (InputRegion (Tensor [n, 1, 1, 1] (\<lambda>idx. Fin (g (hd idx))))) =
   Inr (map (\<lambda>i. Fin \<bar>g i\<bar>) [0..<n])"
  by (simp add: iter_tensor_def torch_norm_single comp_def)

lemma foldl_fl_add_Fin:
  "foldl fl_add (Fin a) (map (\<lambda>i. Fin (f i)) xs) = Fin (a + sum_list (map f xs))"
  by (induction xs arbitrary: a) (simp_all add: add.assoc)

lemma region_rescale:
  assumes "0 < n" and "\<forall>i < n. g i \<noteq> 0"
  defines "S \<equiv> sum_list (map (\<lambda>i. ln \<bar>g i\<bar>) [0..<n])"
  shows "\<exists>t'. rescale [InputRegion (Tensor [n, 1, 1, 1] (\<lambda>idx. Fin (g (hd idx))))] =
                Inr [InputRegion t'] \<and>
              (\<forall>idx. hd idx < n \<longrightarrow>
                 entry t' idx =
                 fl_mul (Fin (g (hd idx))) (fl_exp (Fin (S / real n - ln \<bar>g (hd idx)\<bar>))))"
proof -
  have logs: "map fl_log (map (\<lambda>i. Fin \<bar>g i\<bar>) [0..<n]) = map Fin (map (\<lambda>i. ln \<bar>g i\<bar>) [0..<n])"
    using assms(2) by simp
  show ?thesis
    unfolding rescale_def mapE.simps region_norms bindE_Inr logs Let_def
    using assms(1)
    by (simp add: foldl_fl_add_Fin fl_sum_def scale_cores_def S_def fl_sub_def comp_def
             del: fl_exp.simps)
qed


lemma sum_first_rest:
  "sum_list (map (\<lambda>i. if i = 0 then a else b) [0..<Suc k]) = a + real k * (b::real)"
  by (induction k) (simp_all add: algebra_simps)

lemma ln_pow2: "ln \<bar>2 ^ m :: real\<bar> = real m * ln 2"
  by (simp add: ln_realpow)

lemma ln_inv_pow2: "ln \<bar>1 / 2 ^ k :: real\<bar> = - (real k * ln 2)"
  by (simp add: ln_div ln_realpow)

lemma spread_general:
  fixes k m :: nat
  assumes "128 * 32 \<le> 31 * (m + k)"
  shows "\<exists>t'. rescale [InputRegion (Tensor [32, 1, 1, 1]
                        (\<lambda>idx. Fin (if hd idx = 0 then 1 / 2 ^ k else 2 ^ m)))] =
                Inr [InputRegion t'] \<and> entry t' [0, 0, 0, 0] = PInf"
proof -
  define g :: "nat \<Rightarrow> real" where "g = (\<lambda>i. if i = 0 then 1 / 2 ^ k else 2 ^ m)"
  define S where "S = sum_list (map (\<lambda>i. ln \<bar>g i\<bar>) [0..<32])"
  have sr: "(\<lambda>idx :: nat list. Fin (if hd idx = 0 then 1 / 2 ^ k else 2 ^ m)) =
            (\<lambda>idx. Fin (g (hd idx)))"
    by (simp add: g_def)
  have nz: "\<forall>i < 32. g i \<noteq> 0" by (simp add: g_def)
  have pos: "0 < g 0" by (simp add: g_def)
  from region_rescale [of 32 g, OF _ nz] obtain t' where
    t': "rescale [InputRegion (Tensor [32, 1, 1, 1] (\<lambda>idx. Fin (g (hd idx))))] =
           Inr [InputRegion t']"
        "entry t' [0, 0, 0, 0] = fl_mul (Fin (g 0)) (fl_exp (Fin (S / 32 - ln \<bar>g 0\<bar>)))"
    unfolding S_def by force
  have L: "0 < ln (2::real)" by simp
  have "(\<lambda>i. ln \<bar>g i\<bar>) = (\<lambda>i. if i = 0 then - (real k * ln 2) else real m * ln 2)"
    using ln_pow2 [of m] ln_inv_pow2 [of k] by (auto simp: g_def)
  then have "S = - (real k * ln 2) + real 31 * (real m * ln 2)"
    unfolding S_def using sum_first_rest [of "- (real k * ln 2)" "real m * ln 2" 31] by simp
  moreover have "ln \<bar>g 0\<bar> = - (real k * ln 2)"
    using ln_inv_pow2 [of k] by (simp add: g_def)
  ultimately have e: "S / 32 - ln \<bar>g 0\<bar> = (31 * (real m + real k) / 32) * ln 2"
    by (simp add: algebra_simps)
  from assms have "real (128 * 32) \<le> real (31 * (m + k))" by (rule of_nat_mono)
  then have "128 \<le> 31 * (real m + real k) / 32" by simp
  with L have "128 * ln (2::real) \<le> (31 * (real m + real k) / 32) * ln 2"
    by (rule_tac mult_right_mono) simp_all
  moreover have "exp (128 * ln (2::real)) = 2 ^ 128"
    using exp_of_nat_mult [of 128 "ln (2::real)"] by simp
  ultimately have "(2::real) ^ 128 \<le> exp (S / 32 - ln \<bar>g 0\<bar>)"
    unfolding e by (metis exp_le_cancel_iff)
  then have "fl_exp (Fin (S / 32 - ln \<bar>g 0\<bar>)) = PInf" by simp
  with t'(2) pos have "entry t' [0, 0, 0, 0] = PInf" by simp
  with t'(1) show ?thesis unfolding sr by blast
qed

lemma spread_rescale:
  "\<exists>t'. rescale [spread_region] = Inr [InputRegion t'] \<and> entry t' [0, 0, 0, 0] = PInf"
  using spread_general [of 63 70] by (simp add: spread_region_def)

lemma spread_norms_positive:
  "\<not> isl (get_norm spread_region) \<and> list_all positive_norm (projr (get_norm spread_region))"
proof -
  define g :: "nat \<Rightarrow> real" where "g = (\<lambda>i. if i = 0 then 1 / 2 ^ 70 else 2 ^ 63)"
  have sr: "spread_region = InputRegion (Tensor [32, 1, 1, 1] (\<lambda>idx. Fin (g (hd idx))))"
    by (simp add: spread_region_def g_def)
  have "0 < \<bar>g i\<bar>" for i by (simp add: g_def)
  then show ?thesis
    unfolding sr region_norms by (simp add: list_all_iff positive_norm_def)
qed

text \<open>
  C7, as the code has it. The rescale step raises nothing because of the values of the
  norms: on every chain whose cores all have norms, at least one in all, it returns a chain
  of the same classes and shapes. Where a norm is zero, every entry that norm belongs to is
  NaN afterwards: non-finite values are propagated, no error is raised.
\<close>

theorem rescale_returns:
  assumes "\<forall>m \<in> set ms. \<exists>norms. get_norm m = Inr norms"
    and "\<exists>m \<in> set ms. get_norm m \<noteq> Inr []"
  shows "\<exists>ms'. rescale ms = Inr ms' \<and> length ms' = length ms \<and>
           (\<forall>i < length ms. \<exists>t t'.
              tensor_of (ms ! i) = Inr t \<and> tensor_of (ms' ! i) = Inr t' \<and>
              shape t' = shape t \<and> ms' ! i = set_tensor (ms ! i) t' \<and>
              (\<forall>norms idx. get_norm (ms ! i) = Inr norms \<and>
                   norm_position (ms ! i) idx < length norms \<and>
                   norms ! norm_position (ms ! i) idx = Fin 0 \<longrightarrow>
                 entry t' idx = NaN))"
proof -
  from rescale_total [OF assms] obtain ms' where
    r: "rescale ms = Inr ms'" "length ms' = length ms" by blast
  from rescale_steps [OF r(1)] obtain log_scale where
    step: "\<forall>i < length ms. \<exists>norms. get_norm (ms ! i) = Inr norms \<and>
             rescale_norm (ms ! i) (map (\<lambda>n. fl_exp (fl_sub log_scale (fl_log n))) norms)
               = Inr (ms' ! i)" and
    low: "(\<exists>i < length ms. \<exists>norms. get_norm (ms ! i) = Inr norms \<and> Fin 0 \<in> set norms) \<longrightarrow>
            (\<exists>l n. (l = NInf \<or> l = NaN) \<and> log_scale = fl_div_count l n)"
    by blast
  have "\<exists>t t'. tensor_of (ms ! i) = Inr t \<and> tensor_of (ms' ! i) = Inr t' \<and>
          shape t' = shape t \<and> ms' ! i = set_tensor (ms ! i) t' \<and>
          (\<forall>norms idx. get_norm (ms ! i) = Inr norms \<and>
               norm_position (ms ! i) idx < length norms \<and>
               norms ! norm_position (ms ! i) idx = Fin 0 \<longrightarrow>
             entry t' idx = NaN)"
    if i: "i < length ms" for i
  proof -
    from step i obtain norms where
      n: "get_norm (ms ! i) = Inr norms"
         "rescale_norm (ms ! i) (map (\<lambda>n. fl_exp (fl_sub log_scale (fl_log n))) norms)
            = Inr (ms' ! i)"
      by blast
    from rescale_norm_form [OF n(2)] obtain t t' where
      f: "tensor_of (ms ! i) = Inr t" "tensor_of (ms' ! i) = Inr t'" "shape t' = shape t"
         "ms' ! i = set_tensor (ms ! i) t'"
      by blast
    have "entry t' idx = NaN"
      if z: "norm_position (ms ! i) idx < length norms"
            "norms ! norm_position (ms ! i) idx = Fin 0" for idx
    proof -
      from z have "Fin 0 \<in> set norms" by (metis nth_mem)
      with low i n(1) obtain l k where
        l: "l = NInf \<or> l = NaN" "log_scale = fl_div_count l k" by blast
      from z l(2) scale_low [OF l(1), of k] have
        "map (\<lambda>n. fl_exp (fl_sub log_scale (fl_log n))) norms ! norm_position (ms ! i) idx = NaN"
        by simp
      with rescale_norm_NaN [OF n(2) f(2)] z(1) show ?thesis by simp
    qed
    with f n(1) show ?thesis by auto
  qed
  with r show ?thesis by blast
qed

theorem rescale_returns_witness:
  "\<exists>ms' t'. rescale [zero_slice_region] = Inr ms' \<and> length ms' = 1 \<and>
            tensor_of (ms' ! 0) = Inr t' \<and> shape t' = [2, 1, 1, 1] \<and>
            entry t' [0, 0, 0, 0] = NaN"
proof -
  have n: "get_norm zero_slice_region = Inr [Fin 0, Fin 1]"
    using region_norms [of 2 "\<lambda>i. if i = 0 then 0 else 1"]
    by (simp add: zero_slice_region_def upt_2)
  have h1: "\<forall>m \<in> set [zero_slice_region]. \<exists>norms. get_norm m = Inr norms"
    using n by simp
  have h2: "\<exists>m \<in> set [zero_slice_region]. get_norm m \<noteq> Inr []"
    using n by simp
  from rescale_returns [OF h1 h2] obtain ms' t t' where
    r: "rescale [zero_slice_region] = Inr ms'" "length ms' = 1"
       "tensor_of ([zero_slice_region] ! 0) = Inr t" "tensor_of (ms' ! 0) = Inr t'"
       "shape t' = shape t"
       "\<forall>norms idx. get_norm ([zero_slice_region] ! 0) = Inr norms \<and>
            norm_position ([zero_slice_region] ! 0) idx < length norms \<and>
            norms ! norm_position ([zero_slice_region] ! 0) idx = Fin 0 \<longrightarrow>
          entry t' idx = NaN"
    by force
  from r(3,5) have "shape t' = [2, 1, 1, 1]" by (auto simp: zero_slice_region_def)
  moreover from r(6) [rule_format, of "[Fin 0, Fin 1]" "[0, 0, 0, 0]"] n
  have "entry t' [0, 0, 0, 0] = NaN"
    by (simp add: norm_position_def zero_slice_region_def)
  ultimately show ?thesis using r(1,2,4) by blast
qed

text \<open>
  C7, as the claim states it, fails twice. With an all-zero core in the chain the rescale
  step returns, no error is raised, and the entries of that core are NaN afterwards. And
  norms that are all finite and greater than zero do not keep the result finite: in
  \<open>spread_region\<close>, 31 cores of norm \<open>2 ^ 63\<close> beside one of norm \<open>1 / 2 ^ 70\<close>, the scale of the
  small core is the exponential of about 89.3, which is \<^verbatim>\<open>inf\<close> in single precision, and so
  is the rescaled entry. The one error of the rescale step is that of a chain without
  norms, whose mean is a division by zero.
\<close>

theorem rescale_not_finite_counterexample:
  "torch_norm (full [1, 1, 1] (Fin 0)) = Fin 0 \<and>
   \<not> isl (rescale [InputSite (full [1, 1, 1] (Fin 0)), OutputSite (full [1, 1, 1] (Fin 1))]) \<and>
   entry (projr (tensor_of (hd (projr
     (rescale [InputSite (full [1, 1, 1] (Fin 0)), OutputSite (full [1, 1, 1] (Fin 1))])))))
     [0, 0, 0] = NaN \<and>
   \<not> isl (get_norm spread_region) \<and>
   list_all positive_norm (projr (get_norm spread_region)) \<and>
   \<not> isl (rescale [spread_region]) \<and>
   entry (projr (tensor_of (hd (projr (rescale [spread_region]))))) [0, 0, 0, 0] = PInf \<and>
   rescale [] = Inl ZeroDivisionError"
proof -
  have n0: "torch_norm (full [1, 1, 1] (Fin 0)) = Fin 0"
    by (simp add: torch_norm_def full_def fl_sum_def)
  have n1: "torch_norm (full [1, 1, 1] (Fin 1)) = Fin 1"
    by (simp add: torch_norm_def full_def fl_sum_def)
  have "rescale [InputSite (full [1, 1, 1] (Fin 0)), OutputSite (full [1, 1, 1] (Fin 1))] =
        Inr [InputSite (scale_tensor (full [1, 1, 1] (Fin 0)) NaN),
             OutputSite (scale_tensor (full [1, 1, 1] (Fin 1)) (Fin 0))]"
    by (simp add: rescale_def n0 [unfolded One_nat_def] n1 [unfolded One_nat_def] Let_def
        fl_sum_def fl_sub_def scale_single_def)
  with n0 have zero:
    "torch_norm (full [1, 1, 1] (Fin 0)) = Fin 0 \<and>
     \<not> isl (rescale [InputSite (full [1, 1, 1] (Fin 0)), OutputSite (full [1, 1, 1] (Fin 1))]) \<and>
     entry (projr (tensor_of (hd (projr
       (rescale [InputSite (full [1, 1, 1] (Fin 0)), OutputSite (full [1, 1, 1] (Fin 1))])))))
       [0, 0, 0] = NaN"
    by (simp add: scale_tensor_def full_def)
  from spread_rescale obtain t' where
    "rescale [spread_region] = Inr [InputRegion t']" "entry t' [0, 0, 0, 0] = PInf" by blast
  then have "\<not> isl (rescale [spread_region]) \<and>
     entry (projr (tensor_of (hd (projr (rescale [spread_region]))))) [0, 0, 0, 0] = PInf"
    by simp
  moreover have "rescale [] = Inl ZeroDivisionError"
    by (simp add: rescale_def)
  ultimately show ?thesis
    using zero spread_norms_positive by (simp only: simp_thms)
qed

section \<open>The tilings of a model\<close>

text \<open>
  The two tilings an adaptive model with input sites is built with are chains of its
  \<open>input_dim\<close> sites with one output core each. \<^verbatim>\<open>InputRegion.merge\<close> turns a region of \<open>n > 0\<close> sites into single
  sites and one merged core that consume \<open>n\<close> sites together; the sliding window fuses the
  output core with a single site beside it, which changes neither the sites consumed nor
  the number of output cores.
\<close>

lemma sa: "split_arrow ''slui,surj->slrij'' = Some (''slui,surj'', ''slrij'')" by simp
lemma sc: "split_commas ''slui,surj'' = [''slui'', ''surj'']" by simp



















































section \<open>The result of a forward call of an adaptive model\<close>





end
